theory Spec2Isabelle
  imports Main "HOL-Library.AList"
begin

section \<open>JavaScript values\<close>

text \<open>
  The module \<^verbatim>\<open>src/lib/content-types/merge.js\<close> works on plain configuration data:
  content types, attributes, plugin templates. A value is a tree: a primitive, an array
  or an object. An object is the list of its own enumerable properties in the order
  \<^verbatim>\<open>Object.keys\<close> lists them; assigning an existing key keeps its place and
  assigning a new key appends it, as the engine does for the property names this module
  assigns. Numbers are integers. Functions are not values here, and no object carries an
  own property that shadows an inherited method (\<^verbatim>\<open>hasOwnProperty\<close>,
  \<^verbatim>\<open>toString\<close>, \<^verbatim>\<open>map\<close>, \<^verbatim>\<open>find\<close>).
\<close>

datatype jv =
    JUndefined
  | JNull
  | JBool bool
  | JNum int
  | JStr string
  | JArr "jv list"
  | JObj "(string \<times> jv) list"

text \<open>
  An expression either yields a value, or throws (every exception this module can raise
  on such data is a \<^verbatim>\<open>TypeError\<close>), or leaves the fragment modelled here
  (\<open>Beyond\<close>): an array that is assigned its length, a named property or an
  element it does not have, and a loop bound that is a string or an array and would go
  through JavaScript's string-to-number conversion.
\<close>

datatype 'a res = Val 'a | Throw | Beyond

fun bind_res :: "'a res \<Rightarrow> ('a \<Rightarrow> 'b res) \<Rightarrow> 'b res" where
  "bind_res (Val v) f = f v"
| "bind_res Throw f = Throw"
| "bind_res Beyond f = Beyond"

text \<open>\<^verbatim>\<open>xs.forEach(f)\<close> with the object it mutates threaded through; a throw ends it.\<close>

fun fold_res :: "('a \<Rightarrow> 'b \<Rightarrow> 'b res) \<Rightarrow> 'a list \<Rightarrow> 'b \<Rightarrow> 'b res" where
  "fold_res f [] b = Val b"
| "fold_res f (x # xs) b = bind_res (f x b) (fold_res f xs)"

fun map_res :: "('a \<Rightarrow> 'b res) \<Rightarrow> 'a list \<Rightarrow> 'b list res" where
  "map_res f [] = Val []"
| "map_res f (x # xs) = bind_res (f x) (\<lambda>y. bind_res (map_res f xs) (\<lambda>ys. Val (y # ys)))"

subsection \<open>Conversions\<close>

definition digit :: "nat \<Rightarrow> char" where
  "digit n = ''0123456789'' ! n"

function show_nat :: "nat \<Rightarrow> string" where
  "show_nat n = (if n < 10 then [digit n] else show_nat (n div 10) @ [digit (n mod 10)])"
  by pat_completeness auto
termination
  by (relation "measure id") auto

declare show_nat.simps [simp del]

definition show_int :: "int \<Rightarrow> string" where
  "show_int i = (if i < 0 then ''-'' @ show_nat (nat (- i)) else show_nat (nat i))"

fun join_comma :: "string list \<Rightarrow> string" where
  "join_comma [] = ''''"
| "join_comma [s] = s"
| "join_comma (s # t # ss) = s @ '','' @ join_comma (t # ss)"

text \<open>
  String conversion, as a template literal \<^verbatim>\<open>`${v}`\<close> performs it. An array joins
  its elements with commas, \<^verbatim>\<open>null\<close> and \<^verbatim>\<open>undefined\<close> elements as empty strings.
\<close>

fun to_string :: "jv \<Rightarrow> string" where
  "to_string JUndefined = ''undefined''"
| "to_string JNull = ''null''"
| "to_string (JBool b) = (if b then ''true'' else ''false'')"
| "to_string (JNum i) = show_int i"
| "to_string (JStr s) = s"
| "to_string (JArr xs) =
     join_comma (map (\<lambda>x. if x = JUndefined \<or> x = JNull then '''' else to_string x) xs)"
| "to_string (JObj ps) = ''[object Object]''"

fun truthy :: "jv \<Rightarrow> bool" where
  "truthy JUndefined = False"
| "truthy JNull = False"
| "truthy (JBool b) = b"
| "truthy (JNum i) = (i \<noteq> 0)"
| "truthy (JStr s) = (s \<noteq> '''')"
| "truthy (JArr xs) = True"
| "truthy (JObj ps) = True"

fun typeof :: "jv \<Rightarrow> string" where
  "typeof JUndefined = ''undefined''"
| "typeof JNull = ''object''"
| "typeof (JBool b) = ''boolean''"
| "typeof (JNum i) = ''number''"
| "typeof (JStr s) = ''string''"
| "typeof (JArr xs) = ''object''"
| "typeof (JObj ps) = ''object''"

text \<open>
  Strict equality \<^verbatim>\<open>===\<close>. Primitives compare by value. Objects and arrays compare
  by reference; the trees of a configuration are distinct objects, so two of them are
  never strictly equal.
\<close>

fun strict_eq :: "jv \<Rightarrow> jv \<Rightarrow> bool" where
  "strict_eq (JArr xs) b = False"
| "strict_eq (JObj ps) b = False"
| "strict_eq a b = (a = b)"

subsection \<open>Properties\<close>

text \<open>The index a property key denotes in an array or string of length \<open>n\<close>, if any.\<close>

definition index_of :: "string \<Rightarrow> nat \<Rightarrow> nat option" where
  "index_of k n = List.find (\<lambda>i. show_nat i = k) [0..<n]"

text \<open>\<^verbatim>\<open>Object.keys(v)\<close>.\<close>

fun object_keys :: "jv \<Rightarrow> string list res" where
  "object_keys JUndefined = Throw"
| "object_keys JNull = Throw"
| "object_keys (JBool b) = Val []"
| "object_keys (JNum i) = Val []"
| "object_keys (JStr s) = Val (map show_nat [0..<length s])"
| "object_keys (JArr xs) = Val (map show_nat [0..<length xs])"
| "object_keys (JObj ps) = Val (map fst ps)"

text \<open>
  Reading \<^verbatim>\<open>v[k]\<close> (or \<^verbatim>\<open>v.k\<close>). The keys this module reads are fixed data names
  (\<^verbatim>\<open>type\<close>, \<^verbatim>\<open>id\<close>, \<^verbatim>\<open>inputs\<close>, ...) or come from \<^verbatim>\<open>Object.keys\<close>; none of
  them names an inherited property.
\<close>

fun get_prop :: "jv \<Rightarrow> string \<Rightarrow> jv res" where
  "get_prop JUndefined k = Throw"
| "get_prop JNull k = Throw"
| "get_prop (JBool b) k = Val JUndefined"
| "get_prop (JNum i) k = Val JUndefined"
| "get_prop (JStr s) k =
     Val (if k = ''length'' then JNum (int (length s))
          else case index_of k (length s) of Some i \<Rightarrow> JStr [s ! i] | None \<Rightarrow> JUndefined)"
| "get_prop (JArr xs) k =
     Val (if k = ''length'' then JNum (int (length xs))
          else case index_of k (length xs) of Some i \<Rightarrow> xs ! i | None \<Rightarrow> JUndefined)"
| "get_prop (JObj ps) k = Val (case map_of ps k of Some v \<Rightarrow> v | None \<Rightarrow> JUndefined)"

text \<open>\<^verbatim>\<open>v.hasOwnProperty(k)\<close>.\<close>

fun has_own :: "jv \<Rightarrow> string \<Rightarrow> bool res" where
  "has_own JUndefined k = Throw"
| "has_own JNull k = Throw"
| "has_own (JBool b) k = Val False"
| "has_own (JNum i) k = Val False"
| "has_own (JStr s) k = Val (k = ''length'' \<or> index_of k (length s) \<noteq> None)"
| "has_own (JArr xs) k = Val (k = ''length'' \<or> index_of k (length xs) \<noteq> None)"
| "has_own (JObj ps) k = Val (k \<in> set (map fst ps))"

text \<open>
  The assignment \<^verbatim>\<open>v[k] = x\<close>. The module runs in strict mode, where assigning a
  property of a primitive throws.
\<close>

fun set_prop :: "jv \<Rightarrow> string \<Rightarrow> jv \<Rightarrow> jv res" where
  "set_prop JUndefined k x = Throw"
| "set_prop JNull k x = Throw"
| "set_prop (JBool b) k x = Throw"
| "set_prop (JNum i) k x = Throw"
| "set_prop (JStr s) k x = Throw"
| "set_prop (JArr xs) k x =
     (if k = ''length'' then Beyond
      else case index_of k (length xs) of Some i \<Rightarrow> Val (JArr (xs[i := x])) | None \<Rightarrow> Beyond)"
| "set_prop (JObj ps) k x = Val (JObj (AList.update k x ps))"

section \<open>The required level\<close>

text \<open>\<^verbatim>\<open>requiredLevel\<close>, lines 16 to 25.\<close>

definition requiredLevel :: "jv \<Rightarrow> jv" where
  "requiredLevel level =
     (if strict_eq level (JBool True) \<or> strict_eq level (JStr ''save'') \<or> strict_eq level (JNum 2)
      then JStr ''save''
      else if strict_eq level (JStr ''publish'') \<or> strict_eq level (JNum 1)
      then JStr ''publish''
      else JBool False)"

text \<open>
  The specification's required levels, its normalisation table read literally, and the
  value the module uses for each level: the level \<open>none\<close> is the value \<^verbatim>\<open>false\<close>.
\<close>

datatype RequiredLevel = none | publish | save

definition normalize_spec :: "jv \<Rightarrow> RequiredLevel" where
  "normalize_spec level =
     (if level = JBool True \<or> level = JStr ''save'' \<or> level = JNum 2 then save
      else if level = JStr ''publish'' \<or> level = JNum 1 then publish
      else none)"

fun level_value :: "RequiredLevel \<Rightarrow> jv" where
  "level_value none = JBool False"
| "level_value publish = JStr ''publish''"
| "level_value save = JStr ''save''"

section \<open>External collaborators\<close>

text \<open>
  The module calls four things it does not define: the plugin catalog that
  \<^verbatim>\<open>plugabilly\<close> discovers (line 42), \<^verbatim>\<open>deepmerge\<close> (line 128), lodash's
  \<^verbatim>\<open>kebabCase\<close> (lines 91, 92) and \<^verbatim>\<open>uuid.v4\<close> (line 158). They are parameters of
  the model. The catalog is an object that outlives the call, so it has an address in the
  store below; \<open>uuid_v4 env n\<close> is the identifier the \<open>n\<close>-th call of the generator
  returns. \<^verbatim>\<open>_.cloneDeep\<close> returns a fresh copy of a tree, which as a value is the
  tree itself.
\<close>

type_synonym addr = nat

record env =
  plugins :: addr
  merge :: "jv \<Rightarrow> jv \<Rightarrow> jv res"
  slugify :: "jv \<Rightarrow> string"
  uuid_v4 :: "nat \<Rightarrow> string"

section \<open>The promise\<close>

text \<open>
  The errors the executor passes to \<^verbatim>\<open>reject\<close>, named as the specification names
  them, in the order of the source's \<^verbatim>\<open>reject\<close> calls (lines 46, 53, 58, 67, 77,
  82, 87, 92, 209, 214, 218, 222), and the \<^verbatim>\<open>TypeError\<close> of a thrown exception.
  The messages are not modelled.
\<close>

datatype error =
    NotAnArray
  | MissingIdentifierField
  | InvalidIdentifierType
  | PluginNotFound
  | MissingAttributeName
  | MissingAttributeId
  | DuplicateAttributeId
  | NonKebabCaseId
  | IdentifierNotAttribute
  | IdentifierMultipleInputs
  | IdentifierRepeatable
  | IdentifierHasOptions
  | TypeError

text \<open>
  While the executor runs, the promise is pending (\<open>None\<close>) or rejected with an
  error. \<^verbatim>\<open>reject\<close> settles a pending promise and does nothing to a settled one; it
  does not end the executor.
\<close>

type_synonym promise = "error option"

definition reject :: "error \<Rightarrow> promise \<Rightarrow> promise" where
  "reject e p = (case p of None \<Rightarrow> Some e | Some e' \<Rightarrow> Some e')"

text \<open>
  A stretch of the executor either runs to its end (\<open>Cont\<close>, with what it computed and
  the promise as it then is), or is ended by an exception (\<open>Halt\<close>, with the promise as
  it was when the exception was thrown), or leaves the modelled fragment.
\<close>

datatype 'a step = Cont 'a | Halt promise | Outside

definition run_res :: "'a res \<Rightarrow> promise \<Rightarrow> ('a \<Rightarrow> 'b step) \<Rightarrow> 'b step" where
  "run_res r p f = (case r of Val v \<Rightarrow> f v | Throw \<Rightarrow> Halt p | Beyond \<Rightarrow> Outside)"

fun bind_step :: "'a step \<Rightarrow> ('a \<Rightarrow> 'b step) \<Rightarrow> 'b step" where
  "bind_step (Cont v) f = f v"
| "bind_step (Halt p) f = Halt p"
| "bind_step Outside f = Outside"

section \<open>Resolving one attribute\<close>

text \<open>The catalog key of an attribute type, \<^verbatim>\<open>`input-plugin-${attribute.type}`\<close>.\<close>

definition plugin_key :: "jv \<Rightarrow> string" where
  "plugin_key ty = ''input-plugin-'' @ to_string ty"

text \<open>
  Lines 63 to 94: the five checks of an attribute. Each failed check calls
  \<^verbatim>\<open>reject\<close> and the callback goes on. \<open>cat\<close> is the catalog object, \<open>ids\<close> the ids
  pushed so far for this type.
\<close>

definition validate :: "env \<Rightarrow> jv \<Rightarrow> jv \<Rightarrow> jv list \<Rightarrow> promise \<Rightarrow> (promise \<times> jv list) step" where
  "validate env cat attribute ids p =
     run_res (object_keys cat) p (\<lambda>names.
     run_res (get_prop attribute ''type'') p (\<lambda>ty.
     let p = (if plugin_key ty \<notin> set names then reject PluginNotFound p else p) in
     run_res (has_own attribute ''name'') p (\<lambda>has_name.
     let p = (if \<not> has_name then reject MissingAttributeName p else p) in
     run_res (has_own attribute ''id'') p (\<lambda>has_id.
     let p = (if \<not> has_id then reject MissingAttributeId p else p) in
     run_res (get_prop attribute ''id'') p (\<lambda>id.
     let p = (if list_ex (strict_eq id) ids then reject DuplicateAttributeId p else p) in
     let p = (if \<not> strict_eq (JStr (slugify env id)) id then reject NonKebabCaseId p else p) in
     Cont (p, ids @ [id]))))))"

text \<open>
  Lines 98 to 114: name, description and required from the attribute when truthy, the
  forced \<^verbatim>\<open>'save'\<close> of the identifier attribute, then id and type. \<open>plugin\<close> is the
  copy of the template made at line 96.
\<close>

definition apply_overrides :: "jv \<Rightarrow> jv \<Rightarrow> jv \<Rightarrow> jv res" where
  "apply_overrides identifier attribute plugin =
     bind_res (get_prop attribute ''name'') (\<lambda>name.
     bind_res (if truthy name then set_prop plugin ''name'' name else Val plugin) (\<lambda>plugin.
     bind_res (get_prop attribute ''description'') (\<lambda>description.
     bind_res (if truthy description then set_prop plugin ''description'' description
               else Val plugin) (\<lambda>plugin.
     bind_res (get_prop attribute ''required'') (\<lambda>required.
     bind_res (if truthy required then set_prop plugin ''required'' (requiredLevel required)
               else Val plugin) (\<lambda>plugin.
     bind_res (get_prop attribute ''id'') (\<lambda>id.
     bind_res (if strict_eq id identifier then set_prop plugin ''required'' (JStr ''save'')
               else Val plugin) (\<lambda>plugin.
     bind_res (set_prop plugin ''id'' id) (\<lambda>plugin.
     bind_res (get_prop attribute ''type'') (\<lambda>ty.
     set_prop plugin ''type'' ty))))))))))"

text \<open>
  The assignment \<^verbatim>\<open>plugin.inputs[input] = x\<close> on the tree: the source mutates the
  object \<^verbatim>\<open>plugin.inputs\<close> refers to, the model rebuilds \<open>plugin\<close> around it.
\<close>

definition set_input :: "jv \<Rightarrow> string \<Rightarrow> jv \<Rightarrow> jv res" where
  "set_input plugin input x =
     bind_res (get_prop plugin ''inputs'') (\<lambda>inputs.
     bind_res (set_prop inputs input x) (\<lambda>inputs.
     set_prop plugin ''inputs'' inputs))"

text \<open>Lines 117 to 121: the label of a plugin with exactly one input.\<close>

definition default_label :: "jv \<Rightarrow> jv res" where
  "default_label plugin =
     bind_res (get_prop plugin ''inputs'') (\<lambda>inputs.
     bind_res (object_keys inputs) (\<lambda>names.
     if length names = 1 then
       let input = hd names in
       bind_res (get_prop inputs input) (\<lambda>inp.
       bind_res (get_prop plugin ''name'') (\<lambda>name.
       bind_res (set_prop inp ''label'' name) (\<lambda>inp.
       set_input plugin input inp)))
     else Val plugin))"

text \<open>
  Lines 128 to 149: the merged input for one overridden key. \<open>template\<close> is
  \<^verbatim>\<open>plugin.inputs[attr]\<close> and \<open>override\<close> is \<^verbatim>\<open>attribute.inputs[attr]\<close>.
\<close>

definition override_input :: "env \<Rightarrow> jv \<Rightarrow> jv \<Rightarrow> jv \<Rightarrow> jv res" where
  "override_input env plugin template override =
     bind_res (merge env template override) (\<lambda>merged.
     bind_res (get_prop template ''validation'') (\<lambda>validation.
     bind_res (set_prop merged ''validation'' validation) (\<lambda>merged.
     bind_res (get_prop template ''type'') (\<lambda>ty.
     bind_res (set_prop merged ''type'' ty) (\<lambda>merged.
     bind_res (has_own template ''script'') (\<lambda>has_script.
     bind_res (if has_script
               then bind_res (get_prop template ''script'') (set_prop merged ''script'')
               else Val merged) (\<lambda>merged.
     bind_res (has_own override ''options'') (\<lambda>has_options.
     bind_res (if has_options
               then bind_res (get_prop override ''options'') (set_prop merged ''options'')
               else Val merged) (\<lambda>merged.
     bind_res (has_own merged ''required'') (\<lambda>has_required.
     if \<not> has_required
     then bind_res (get_prop plugin ''required'') (set_prop merged ''required'')
     else bind_res (get_prop merged ''required'')
            (\<lambda>r. set_prop merged ''required'' (requiredLevel r))))))))))))"

text \<open>
  Lines 126 to 152: the body of the loop over the attribute's input overrides, for the
  key \<open>attr\<close>. \<open>overrides\<close> is \<^verbatim>\<open>attribute.inputs\<close>.
\<close>

definition merge_input :: "env \<Rightarrow> jv \<Rightarrow> string \<Rightarrow> jv \<Rightarrow> jv res" where
  "merge_input env overrides attr plugin =
     bind_res (get_prop plugin ''inputs'') (\<lambda>inputs.
     bind_res (object_keys inputs) (\<lambda>names.
     if attr \<in> set names then
       bind_res (get_prop inputs attr) (\<lambda>template.
       bind_res (get_prop overrides attr) (\<lambda>override.
       bind_res (override_input env plugin template override) (\<lambda>merged.
       set_input plugin attr merged)))
     else Val plugin))"

text \<open>Lines 124 to 154.\<close>

definition merge_inputs :: "env \<Rightarrow> jv \<Rightarrow> jv \<Rightarrow> jv res" where
  "merge_inputs env attribute plugin =
     bind_res (get_prop attribute ''inputs'') (\<lambda>overrides.
     if truthy overrides
     then bind_res (object_keys overrides) (\<lambda>attrs.
            fold_res (merge_input env overrides) attrs plugin)
     else Val plugin)"

text \<open>
  Lines 157 to 160: every input gets a generated id and the name
  \<^verbatim>\<open>`${plugin.id}--${input}`\<close>. The second component counts the calls of
  \<^verbatim>\<open>uuid.v4\<close>.
\<close>

definition assign_id :: "env \<Rightarrow> string \<Rightarrow> jv \<times> nat \<Rightarrow> (jv \<times> nat) res" where
  "assign_id env input s =
     (case s of (plugin, n) \<Rightarrow>
       bind_res (get_prop plugin ''inputs'') (\<lambda>inputs.
       bind_res (get_prop inputs input) (\<lambda>inp.
       bind_res (set_prop inp ''id'' (JStr (uuid_v4 env n))) (\<lambda>inp.
       bind_res (get_prop plugin ''id'') (\<lambda>pid.
       bind_res (set_prop inp ''name'' (JStr (to_string pid @ ''--'' @ input))) (\<lambda>inp.
       bind_res (set_input plugin input inp) (\<lambda>plugin.
       Val (plugin, Suc n))))))))"

definition assign_ids :: "env \<Rightarrow> jv \<Rightarrow> nat \<Rightarrow> (jv \<times> nat) res" where
  "assign_ids env plugin n =
     bind_res (get_prop plugin ''inputs'') (\<lambda>inputs.
     bind_res (object_keys inputs) (\<lambda>names.
     fold_res (assign_id env) names (plugin, n)))"

text \<open>\<^verbatim>\<open>Number.MAX_SAFE_INTEGER\<close>.\<close>

definition MAX_SAFE_INTEGER :: int where
  "MAX_SAFE_INTEGER = 9007199254740991"

text \<open>
  Lines 165 to 185: the unified \<^verbatim>\<open>plugin.repeatable\<close>, for a truthy
  \<^verbatim>\<open>attribute.repeatable\<close>. The object is built with \<^verbatim>\<open>min\<close> first and \<^verbatim>\<open>max\<close>
  second, as the source assigns them. A truthy value that is neither an object nor
  \<^verbatim>\<open>true\<close> leaves the plugin as it is.
\<close>

definition normalize_repeatable :: "jv \<Rightarrow> jv \<Rightarrow> jv res" where
  "normalize_repeatable repeatable plugin =
     (if typeof repeatable = ''object'' then
        bind_res (has_own repeatable ''min'') (\<lambda>has_min.
        bind_res (if \<not> has_min then Val (JNum 1) else get_prop repeatable ''min'') (\<lambda>mn.
        bind_res (has_own repeatable ''max'') (\<lambda>has_max.
        bind_res (if \<not> has_max then Val (JNum MAX_SAFE_INTEGER)
                  else get_prop repeatable ''max'') (\<lambda>mx.
        set_prop plugin ''repeatable'' (JObj [(''min'', mn), (''max'', mx)])))))
      else if strict_eq repeatable (JBool True) then
        set_prop plugin ''repeatable'' (JObj [(''min'', JNum 1), (''max'', JNum MAX_SAFE_INTEGER)])
      else Val plugin)"

text \<open>
  How often the loop \<^verbatim>\<open>for (let i = 0; i < min; i++)\<close> runs. The comparison converts
  \<open>min\<close> to a number: \<^verbatim>\<open>true\<close> is 1, \<^verbatim>\<open>false\<close> and \<^verbatim>\<open>null\<close> are 0, and
  \<^verbatim>\<open>undefined\<close> and an object are \<^verbatim>\<open>NaN\<close>, which no \<open>i\<close> is below. A string or an
  array is converted through its text, which is not modelled.
\<close>

fun loop_count :: "jv \<Rightarrow> nat res" where
  "loop_count (JNum i) = Val (nat i)"
| "loop_count (JBool b) = Val (if b then 1 else 0)"
| "loop_count JNull = Val 0"
| "loop_count JUndefined = Val 0"
| "loop_count (JObj ps) = Val 0"
| "loop_count (JStr s) = Beyond"
| "loop_count (JArr xs) = Beyond"

text \<open>Lines 192 and 193: the suffix \<^verbatim>\<open>--i\<close> on the id and the name of one input.\<close>

definition suffix_input :: "nat \<Rightarrow> string \<Rightarrow> jv \<Rightarrow> jv res" where
  "suffix_input i input inputs =
     bind_res (get_prop inputs input) (\<lambda>inp.
     bind_res (get_prop inp ''id'') (\<lambda>id.
     bind_res (set_prop inp ''id'' (JStr (to_string id @ ''--'' @ show_nat i))) (\<lambda>inp.
     bind_res (get_prop inp ''name'') (\<lambda>name.
     bind_res (set_prop inp ''name'' (JStr (to_string name @ ''--'' @ show_nat i))) (\<lambda>inp.
     set_prop inputs input inp)))))"

text \<open>Lines 190 to 195: instance \<open>i\<close>, built on a deep copy of \<^verbatim>\<open>plugin.inputs\<close>.\<close>

definition make_instance :: "jv \<Rightarrow> nat \<Rightarrow> jv res" where
  "make_instance inputs i =
     bind_res (object_keys inputs) (\<lambda>names. fold_res (suffix_input i) names inputs)"

text \<open>Lines 163 to 198.\<close>

definition expand_repeatable :: "jv \<Rightarrow> jv \<Rightarrow> jv res" where
  "expand_repeatable attribute plugin =
     bind_res (get_prop attribute ''repeatable'') (\<lambda>repeatable.
     if truthy repeatable then
       bind_res (normalize_repeatable repeatable plugin) (\<lambda>plugin.
       bind_res (get_prop plugin ''repeatable'') (\<lambda>r.
       bind_res (get_prop r ''min'') (\<lambda>mn.
       bind_res (loop_count mn) (\<lambda>count.
       bind_res (get_prop plugin ''inputs'') (\<lambda>inputs.
       bind_res (map_res (make_instance inputs) [0..<count]) (\<lambda>pluginInputs.
       set_prop plugin ''inputs'' (JArr pluginInputs)))))))
     else Val plugin)"

text \<open>
  Lines 96 to 160: the copy of the template with the attribute's overrides merged in
  and every input identified. \<open>n\<close> counts the identifiers generated before this
  attribute.
\<close>

definition resolve_inputs :: "env \<Rightarrow> jv \<Rightarrow> jv \<Rightarrow> jv \<Rightarrow> nat \<Rightarrow> (jv \<times> nat) res" where
  "resolve_inputs env cat identifier attribute n =
     bind_res (get_prop attribute ''type'') (\<lambda>ty.
     bind_res (get_prop cat (plugin_key ty)) (\<lambda>plugin.
     bind_res (apply_overrides identifier attribute plugin) (\<lambda>plugin.
     bind_res (default_label plugin) (\<lambda>plugin.
     bind_res (merge_inputs env attribute plugin) (\<lambda>plugin.
     assign_ids env plugin n)))))"

text \<open>Lines 96 to 200: the resolved attribute.\<close>

definition resolve_attr :: "env \<Rightarrow> jv \<Rightarrow> jv \<Rightarrow> jv \<Rightarrow> nat \<Rightarrow> (jv \<times> nat) res" where
  "resolve_attr env cat identifier attribute n =
     bind_res (resolve_inputs env cat identifier attribute n) (\<lambda>s.
     case s of (plugin, n) \<Rightarrow>
     bind_res (expand_repeatable attribute plugin) (\<lambda>plugin.
     Val (plugin, n)))"

text \<open>A property of the attribute that the callback returns, for the first attribute of a type.\<close>

definition resolved_field :: "env \<Rightarrow> jv \<Rightarrow> jv \<Rightarrow> jv \<Rightarrow> string \<Rightarrow> jv res" where
  "resolved_field env cat identifier attribute k =
     bind_res (resolve_attr env cat identifier attribute 0) (\<lambda>r. get_prop (fst r) k)"

text \<open>A property of one input of the attribute that the callback returns.\<close>

definition resolved_input_field :: "env \<Rightarrow> jv \<Rightarrow> jv \<Rightarrow> jv \<Rightarrow> string \<Rightarrow> string \<Rightarrow> jv res" where
  "resolved_input_field env cat identifier attribute input k =
     bind_res (resolved_field env cat identifier attribute ''inputs'') (\<lambda>inputs.
     bind_res (get_prop inputs input) (\<lambda>inp. get_prop inp k))"

text \<open>
  An input \<open>c\<close> that is the input \<open>inp\<close> with \<^verbatim>\<open>--i\<close> appended to its id and its
  name, and is the same in every other property.
\<close>

definition suffixed :: "nat \<Rightarrow> jv \<Rightarrow> jv \<Rightarrow> bool" where
  "suffixed i inp c \<longleftrightarrow>
     (\<exists>idv nmv. get_prop inp ''id'' = Val idv \<and> get_prop inp ''name'' = Val nmv \<and>
        get_prop c ''id'' = Val (JStr (to_string idv @ ''--'' @ show_nat i)) \<and>
        get_prop c ''name'' = Val (JStr (to_string nmv @ ''--'' @ show_nat i)) \<and>
        (\<forall>f. f \<noteq> ''id'' \<longrightarrow> f \<noteq> ''name'' \<longrightarrow> get_prop c f = get_prop inp f))"

text \<open>
  Two values that agree, outside the property names \<open>S\<close>, on every property and on
  which properties are their own.
\<close>

definition same_except :: "string set \<Rightarrow> jv \<Rightarrow> jv \<Rightarrow> bool" where
  "same_except S a b \<longleftrightarrow>
     (\<forall>f. f \<notin> S \<longrightarrow> get_prop b f = get_prop a f \<and> has_own b f = has_own a f)"

section \<open>Resolving one content type\<close>

text \<open>
  Lines 62 to 201: the callback of \<^verbatim>\<open>mergedType.attributes.map\<close>. Its state is the
  promise, the list \<^verbatim>\<open>ids\<close> and the count of generated identifiers.
\<close>

definition attr_callback ::
  "env \<Rightarrow> jv \<Rightarrow> jv \<Rightarrow> jv \<Rightarrow> promise \<times> jv list \<times> nat \<Rightarrow> (jv \<times> promise \<times> jv list \<times> nat) step" where
  "attr_callback env cat identifier attribute s =
     (case s of (p, ids, n) \<Rightarrow>
       bind_step (validate env cat attribute ids p) (\<lambda>v.
       case v of (p, ids) \<Rightarrow>
       run_res (resolve_attr env cat identifier attribute n) p (\<lambda>r.
       case r of (plugin, n) \<Rightarrow> Cont (plugin, p, ids, n))))"

fun map_attrs ::
  "env \<Rightarrow> jv \<Rightarrow> jv \<Rightarrow> jv list \<Rightarrow> promise \<times> jv list \<times> nat \<Rightarrow> (jv list \<times> promise \<times> jv list \<times> nat) step" where
  "map_attrs env cat identifier [] s = Cont ([], s)"
| "map_attrs env cat identifier (attribute # rest) s =
     bind_step (attr_callback env cat identifier attribute s) (\<lambda>r.
     case r of (plugin, s) \<Rightarrow>
     bind_step (map_attrs env cat identifier rest s) (\<lambda>rs.
     case rs of (attrs, s) \<Rightarrow> Cont (plugin # attrs, s)))"

text \<open>
  The receiver of \<^verbatim>\<open>.map\<close> at lines 48 and 62: the elements of an array; on any other
  value the call throws.
\<close>

fun array_elems :: "jv \<Rightarrow> jv list res" where
  "array_elems (JArr xs) = Val xs"
| "array_elems v = Throw"

text \<open>
  Lines 204 to 206: \<^verbatim>\<open>attrs.find(attr => attr.id === mergedType.identifier)\<close>, which
  is \<^verbatim>\<open>undefined\<close> when no attribute matches.
\<close>

fun find_contender :: "jv \<Rightarrow> jv list \<Rightarrow> jv res" where
  "find_contender identifier [] = Val JUndefined"
| "find_contender identifier (attr # attrs) =
     bind_res (get_prop attr ''id'') (\<lambda>id.
     if strict_eq id identifier then Val attr else find_contender identifier attrs)"

text \<open>
  \<^verbatim>\<open>Object.keys(contender.inputs)[0]\<close> as a property key: the first key, or the text of
  \<^verbatim>\<open>undefined\<close> when there is none.
\<close>

definition first_key :: "string list \<Rightarrow> string" where
  "first_key names = (case names of [] \<Rightarrow> ''undefined'' | k # _ \<Rightarrow> k)"

text \<open>Lines 204 to 223: the checks on the identifier attribute.\<close>

definition check_identifier :: "jv \<Rightarrow> jv list \<Rightarrow> promise \<Rightarrow> promise step" where
  "check_identifier identifier attrs p =
     run_res (find_contender identifier attrs) p (\<lambda>contender.
     let p = (if \<not> truthy contender then reject IdentifierNotAttribute p else p) in
     run_res (bind_res (get_prop contender ''inputs'') object_keys) p (\<lambda>names.
     let p = (if length names > 1 then reject IdentifierMultipleInputs p else p) in
     run_res (has_own contender ''repeatable'') p (\<lambda>has_repeatable.
     let p = (if has_repeatable then reject IdentifierRepeatable p else p) in
     run_res (bind_res (get_prop contender ''inputs'') (\<lambda>inputs.
              bind_res (get_prop inputs (first_key names)) (\<lambda>inp.
              has_own inp ''options''))) p (\<lambda>has_options.
     let p = (if has_options then reject IdentifierHasOptions p else p) in
     Cont p))))"

text \<open>The promise as a stretch of the executor leaves it.\<close>

fun promise_after :: "promise step \<Rightarrow> promise" where
  "promise_after (Cont p) = p"
| "promise_after (Halt p) = p"
| "promise_after Outside = None"

text \<open>
  Lines 49 to 223: one content type, up to the assignment of line 225. \<open>ty\<close> is the
  type object as the store holds it. The result is \<^verbatim>\<open>attrs\<close>, the promise and the
  count of generated identifiers.
\<close>

definition squish_type :: "env \<Rightarrow> jv \<Rightarrow> jv \<Rightarrow> promise \<Rightarrow> nat \<Rightarrow> (jv list \<times> promise \<times> nat) step" where
  "squish_type env cat ty p n =
     run_res (has_own ty ''identifier'') p (\<lambda>has_identifier.
     let p = (if \<not> has_identifier then reject MissingIdentifierField p else p) in
     run_res (get_prop ty ''identifier'') p (\<lambda>identifier.
     let p = (if has_identifier \<and> typeof identifier \<noteq> ''string''
              then reject InvalidIdentifierType p else p) in
     run_res (bind_res (get_prop ty ''attributes'') array_elems) p (\<lambda>attributes.
     bind_step (map_attrs env cat identifier attributes (p, [], n)) (\<lambda>r.
     case r of (attrs, p, ids, n) \<Rightarrow>
     bind_step (check_identifier identifier attrs p) (\<lambda>p.
     Cont (attrs, p, n))))))"

section \<open>The merge\<close>

text \<open>
  The objects that outlive the call are in a store: the content types, which line 225
  assigns to, and the catalog. \<^verbatim>\<open>const mergedType = type\<close> (line 49) makes
  \<^verbatim>\<open>mergedType\<close> another name of the caller's object, so
  \<^verbatim>\<open>mergedType.attributes = attrs\<close> writes the store at the address of the type, and
  \<^verbatim>\<open>return mergedType\<close> returns that address. Everything else the module assigns to
  is an object it has made itself: the copy of a template, the result of the merge, an
  array or object literal.
\<close>

type_synonym store = "addr \<Rightarrow> jv"

text \<open>
  The argument \<^verbatim>\<open>types\<close>: an array of type objects, by address, or any value that is
  not an array.
\<close>

datatype types_arg = NonArray jv | TypesArray "addr list"

text \<open>How a run of \<^verbatim>\<open>types.map\<close> ends.\<close>

datatype mapped = Mapped promise nat store | Thrown promise store | Unmodelled

text \<open>Lines 48 to 228: the callback of \<^verbatim>\<open>types.map\<close>, over the elements in order.\<close>

fun squish_types :: "env \<Rightarrow> addr list \<Rightarrow> promise \<Rightarrow> nat \<Rightarrow> store \<Rightarrow> mapped" where
  "squish_types env [] p n st = Mapped p n st"
| "squish_types env (a # as) p n st =
     (case squish_type env (st (plugins env)) (st a) p n of
        Cont (attrs, p, n) \<Rightarrow>
          (case set_prop (st a) ''attributes'' (JArr attrs) of
             Val ty \<Rightarrow> squish_types env as p n (st(a := ty))
           | Throw \<Rightarrow> Thrown p st
           | Beyond \<Rightarrow> Unmodelled)
      | Halt p \<Rightarrow> Thrown p st
      | Outside \<Rightarrow> Unmodelled)"

text \<open>
  The outcome the caller sees. The resolved value is the array \<^verbatim>\<open>configured\<close>: the
  type objects, by address. An exception that leaves the executor rejects the promise if
  it is still pending; \<^verbatim>\<open>resolve(configured)\<close> at line 230 resolves it if it is still
  pending.
\<close>

datatype outcome = Resolved "addr list" | Rejected error

definition thrown :: "promise \<Rightarrow> outcome" where
  "thrown p = (case p of None \<Rightarrow> Rejected TypeError | Some e \<Rightarrow> Rejected e)"

definition resolve :: "addr list \<Rightarrow> promise \<Rightarrow> outcome" where
  "resolve configured p = (case p of None \<Rightarrow> Resolved configured | Some e \<Rightarrow> Rejected e)"

text \<open>What the caller has when the call is over: the settled promise and the store.\<close>

datatype finished = Finished outcome store | OutsideModel

text \<open>
  \<^verbatim>\<open>squish\<close>, lines 44 to 231, exported as the module. For a value that is not an
  array, line 46 rejects and line 48 then throws, there being no \<^verbatim>\<open>map\<close> to call.
\<close>

definition squish :: "env \<Rightarrow> types_arg \<Rightarrow> store \<Rightarrow> finished" where
  "squish env types st =
     (case types of
        NonArray v \<Rightarrow> Finished (thrown (reject NotAnArray None)) st
      | TypesArray addrs \<Rightarrow>
          (case squish_types env addrs None 0 st of
             Mapped p n st' \<Rightarrow> Finished (resolve addrs p) st'
           | Thrown p st' \<Rightarrow> Finished (thrown p) st'
           | Unmodelled \<Rightarrow> OutsideModel))"


text \<open>
  What a caller reads back after the call: the outcome and the objects at the given
  addresses.
\<close>

fun observe :: "finished \<Rightarrow> addr list \<Rightarrow> (outcome \<times> jv list) option" where
  "observe (Finished out st) addrs = Some (out, map st addrs)"
| "observe OutsideModel addrs = None"

text \<open>
  A resolved attribute that, if its id is the identifier, is required to save; and a
  type object all of whose attributes are so.
\<close>

definition attr_saved :: "jv \<Rightarrow> jv \<Rightarrow> bool" where
  "attr_saved ident attr =
     (case get_prop attr ''id'' of
        Val aid \<Rightarrow> strict_eq aid ident \<longrightarrow> get_prop attr ''required'' = Val (JStr ''save'')
      | _ \<Rightarrow> False)"

definition identifier_saved :: "jv \<Rightarrow> bool" where
  "identifier_saved ty =
     (case get_prop ty ''identifier'' of
        Val ident \<Rightarrow>
          (case get_prop ty ''attributes'' of
             Val (JArr attrs) \<Rightarrow> list_all (attr_saved ident) attrs
           | _ \<Rightarrow> False)
      | _ \<Rightarrow> False)"

section \<open>Collaborators to run the model with\<close>

text \<open>
  Modelled from the spec: \<^verbatim>\<open>deepmerge\<close>, \<^verbatim>\<open>kebabCase\<close> and \<^verbatim>\<open>uuid.v4\<close> are
  libraries outside the repository. The specification describes them as a deep merge of
  plain objects (the override onto the template), a kebab-case normalisation, and a
  generator whose values never repeat. The definitions below are used to run the model on
  concrete configurations; the general theorems hold for every \<open>env\<close>.

  The deep merge keeps the template's keys in place, merges a key both objects have,
  and appends the keys only the override has; an override that is not an object
  replaces the template.
\<close>

fun deepmerge :: "jv \<Rightarrow> jv \<Rightarrow> jv" where
  "deepmerge (JObj t) (JObj s) =
     JObj (map (\<lambda>p. (fst p, case map_of s (fst p) of
                              None \<Rightarrow> snd p
                            | Some v \<Rightarrow> deepmerge (snd p) v)) t
           @ filter (\<lambda>p. fst p \<notin> set (map fst t)) s)"
| "deepmerge t s = s"

text \<open>
  Kebab case on ASCII text: words are runs of letters or of digits, a new word starts at
  an upper-case letter after a lower-case one, everything else separates words, and the
  words are joined in lower case by hyphens. \<^verbatim>\<open>null\<close> and \<^verbatim>\<open>undefined\<close> give the
  empty string.
\<close>

definition is_lower :: "char \<Rightarrow> bool" where
  "is_lower c = (97 \<le> (of_char c :: nat) \<and> (of_char c :: nat) \<le> 122)"

definition is_upper :: "char \<Rightarrow> bool" where
  "is_upper c = (65 \<le> (of_char c :: nat) \<and> (of_char c :: nat) \<le> 90)"

definition is_digit :: "char \<Rightarrow> bool" where
  "is_digit c = (48 \<le> (of_char c :: nat) \<and> (of_char c :: nat) \<le> 57)"

definition lower :: "char \<Rightarrow> char" where
  "lower c = (if is_upper c then char_of ((of_char c :: nat) + 32) else c)"

definition boundary :: "char option \<Rightarrow> char \<Rightarrow> bool" where
  "boundary prev c =
     (case prev of
        None \<Rightarrow> False
      | Some q \<Rightarrow> (is_lower q \<and> is_upper c) \<or> (is_digit q \<noteq> is_digit c))"

fun split_words :: "char option \<Rightarrow> string \<Rightarrow> string \<Rightarrow> string list" where
  "split_words prev w [] = (if w = [] then [] else [w])"
| "split_words prev w (c # cs) =
     (if \<not> (is_lower c \<or> is_upper c \<or> is_digit c)
      then (if w = [] then [] else [w]) @ split_words None [] cs
      else if boundary prev c
      then (if w = [] then [] else [w]) @ split_words (Some c) [lower c] cs
      else split_words (Some c) (w @ [lower c]) cs)"

fun join_hyphen :: "string list \<Rightarrow> string" where
  "join_hyphen [] = ''''"
| "join_hyphen [s] = s"
| "join_hyphen (s # t # ss) = s @ ''-'' @ join_hyphen (t # ss)"

definition kebabCase :: "jv \<Rightarrow> string" where
  "kebabCase v =
     (if v = JUndefined \<or> v = JNull then ''''
      else join_hyphen (split_words None [] (to_string v)))"

definition uuid_seq :: "nat \<Rightarrow> string" where
  "uuid_seq n = ''uuid-'' @ show_nat n"

text \<open>The catalog is at address 0 of the store, the content types follow.\<close>

definition std_env :: env where
  "std_env = \<lparr> plugins = 0, merge = (\<lambda>t s. Val (deepmerge t s)),
               slugify = kebabCase, uuid_v4 = uuid_seq \<rparr>"

text \<open>
  The catalog of the specification's end-to-end scenario:
  \<^verbatim>\<open>{ "input-plugin-text": {name: "Text", inputs: {value: {type: "string", validation: {}}}} }\<close>.
\<close>

definition text_plugin :: jv where
  "text_plugin =
     JObj [(''name'', JStr ''Text''),
           (''inputs'', JObj [(''value'', JObj [(''type'', JStr ''string''),
                                               (''validation'', JObj [])])])]"

definition catalog :: jv where
  "catalog = JObj [(''input-plugin-text'', text_plugin)]"

text \<open>A store with the catalog at 0, one content type at 1 and nothing else.\<close>

definition store_of :: "jv \<Rightarrow> jv \<Rightarrow> store" where
  "store_of cat ty = (\<lambda>a. if a = 0 then cat else if a = 1 then ty else JUndefined)"

section \<open>Configurations\<close>

text \<open>
  The content type of the specification's end-to-end scenario,
  \<^verbatim>\<open>{identifier: "slug", name: "Post", attributes: [{id: "slug", type: "text", name: "Slug"}]}\<close>,
  and the object it is after the call.
\<close>

definition post_type :: jv where
  "post_type =
     JObj [(''identifier'', JStr ''slug''), (''name'', JStr ''Post''),
           (''attributes'', JArr [JObj [(''id'', JStr ''slug''), (''type'', JStr ''text''),
                                        (''name'', JStr ''Slug'')]])]"

definition slug_input :: jv where
  "slug_input =
     JObj [(''type'', JStr ''string''), (''validation'', JObj []), (''label'', JStr ''Slug''),
           (''id'', JStr ''uuid-0''), (''name'', JStr ''slug--value'')]"

definition slug_resolved :: jv where
  "slug_resolved =
     JObj [(''name'', JStr ''Slug''), (''inputs'', JObj [(''value'', slug_input)]),
           (''required'', JStr ''save''), (''id'', JStr ''slug''), (''type'', JStr ''text'')]"

definition post_resolved :: jv where
  "post_resolved =
     JObj [(''identifier'', JStr ''slug''), (''name'', JStr ''Post''),
           (''attributes'', JArr [slug_resolved])]"

text \<open>
  A content type whose first attribute has no name,
  \<^verbatim>\<open>{identifier: "slug", name: "Post", attributes: [{id: "slug", type: "text"},
  {id: "body", type: "text", name: "Body"}]}\<close>,
  and the object it is after the call.
\<close>

definition nameless_type :: jv where
  "nameless_type =
     JObj [(''identifier'', JStr ''slug''), (''name'', JStr ''Post''),
           (''attributes'', JArr [JObj [(''id'', JStr ''slug''), (''type'', JStr ''text'')],
                                  JObj [(''id'', JStr ''body''), (''type'', JStr ''text''),
                                        (''name'', JStr ''Body'')]])]"

definition nameless_after :: jv where
  "nameless_after =
     JObj [(''identifier'', JStr ''slug''), (''name'', JStr ''Post''),
           (''attributes'', JArr [
              JObj [(''name'', JStr ''Text''),
                    (''inputs'', JObj [(''value'',
                       JObj [(''type'', JStr ''string''), (''validation'', JObj []),
                             (''label'', JStr ''Text''), (''id'', JStr ''uuid-0''),
                             (''name'', JStr ''slug--value'')])]),
                    (''required'', JStr ''save''), (''id'', JStr ''slug''),
                    (''type'', JStr ''text'')],
              JObj [(''name'', JStr ''Body''),
                    (''inputs'', JObj [(''value'',
                       JObj [(''type'', JStr ''string''), (''validation'', JObj []),
                             (''label'', JStr ''Body''), (''id'', JStr ''uuid-1''),
                             (''name'', JStr ''body--value'')])]),
                    (''id'', JStr ''body''), (''type'', JStr ''text'')]])]"

text \<open>
  A catalog whose text plugin declares a default \<^verbatim>\<open>required: 'publish'\<close>, and two
  attributes that declare \<^verbatim>\<open>required: false\<close>:
  \<^verbatim>\<open>{id: "body", type: "text", name: "Body", required: false}\<close> and
  \<^verbatim>\<open>{id: "slug", type: "text", name: "Slug", required: false}\<close>.
\<close>

definition publish_plugin :: jv where
  "publish_plugin =
     JObj [(''name'', JStr ''Text''), (''required'', JStr ''publish''),
           (''inputs'', JObj [(''value'', JObj [(''type'', JStr ''string''),
                                               (''validation'', JObj [])])])]"

definition publish_catalog :: jv where
  "publish_catalog = JObj [(''input-plugin-text'', publish_plugin)]"

definition optional_body :: jv where
  "optional_body =
     JObj [(''id'', JStr ''body''), (''type'', JStr ''text''), (''name'', JStr ''Body''),
           (''required'', JBool False)]"

definition optional_slug :: jv where
  "optional_slug =
     JObj [(''id'', JStr ''slug''), (''type'', JStr ''text''), (''name'', JStr ''Slug''),
           (''required'', JBool False)]"

text \<open>
  Repeatable attributes:
  \<^verbatim>\<open>{id: "tags", type: "text", name: "Tags", repeatable: {min: 0}}\<close> and
  \<^verbatim>\<open>{id: "tags", type: "text", name: "Tags", repeatable: {min: 3, max: 5}}\<close>.
\<close>

definition tags_min0 :: jv where
  "tags_min0 =
     JObj [(''id'', JStr ''tags''), (''type'', JStr ''text''), (''name'', JStr ''Tags''),
           (''repeatable'', JObj [(''min'', JNum 0)])]"

definition tags_min3 :: jv where
  "tags_min3 =
     JObj [(''id'', JStr ''tags''), (''type'', JStr ''text''), (''name'', JStr ''Tags''),
           (''repeatable'', JObj [(''min'', JNum 3), (''max'', JNum 5)])]"

text \<open>
  The override example of the specification: a template input with
  \<^verbatim>\<open>validation: {maxLength: 10}\<close> and no script, and an attribute
  \<^verbatim>\<open>{id: "body", type: "text", name: "Body", inputs: {value: {validation: {maxLength: 999},
  script: "evil.js", options: ["A", "B"]}}}\<close>.
\<close>

definition limited_input :: jv where
  "limited_input =
     JObj [(''type'', JStr ''string''), (''validation'', JObj [(''maxLength'', JNum 10)])]"

definition limited_plugin :: jv where
  "limited_plugin = JObj [(''name'', JStr ''Text''), (''inputs'', JObj [(''value'', limited_input)])]"

definition limited_catalog :: jv where
  "limited_catalog = JObj [(''input-plugin-text'', limited_plugin)]"

definition body_override :: jv where
  "body_override =
     JObj [(''validation'', JObj [(''maxLength'', JNum 999)]), (''script'', JStr ''evil.js''),
           (''options'', JArr [JStr ''A'', JStr ''B''])]"

definition scripted_body :: jv where
  "scripted_body =
     JObj [(''id'', JStr ''body''), (''type'', JStr ''text''), (''name'', JStr ''Body''),
           (''inputs'', JObj [(''value'', body_override)])]"

text \<open>
  A catalog whose template input defines a script, \<^verbatim>\<open>script: "default.js"\<close>.
\<close>

definition stock_input :: jv where
  "stock_input =
     JObj [(''type'', JStr ''string''), (''validation'', JObj [(''maxLength'', JNum 10)]),
           (''script'', JStr ''default.js'')]"

definition stock_plugin :: jv where
  "stock_plugin =
     JObj [(''name'', JStr ''Text''), (''inputs'', JObj [(''value'', stock_input)])]"

definition stock_catalog :: jv where
  "stock_catalog = JObj [(''input-plugin-text'', stock_plugin)]"

text \<open>
  Two content types whose identifier attribute is repeatable: the one-input attribute
  \<open>tags_min3\<close>, and an attribute of a plugin with two inputs,
  \<^verbatim>\<open>{id: "pair", type: "pair", name: "Pair", repeatable: true}\<close>.
\<close>

definition tags_type :: jv where
  "tags_type =
     JObj [(''identifier'', JStr ''tags''), (''name'', JStr ''Post''),
           (''attributes'', JArr [tags_min3])]"

definition pair_plugin :: jv where
  "pair_plugin =
     JObj [(''name'', JStr ''Pair''),
           (''inputs'', JObj [(''first'', JObj [(''type'', JStr ''string''), (''validation'', JObj [])]),
                              (''second'', JObj [(''type'', JStr ''string''), (''validation'', JObj [])])])]"

definition pair_catalog :: jv where
  "pair_catalog = JObj [(''input-plugin-pair'', pair_plugin)]"

definition pair_attribute :: jv where
  "pair_attribute =
     JObj [(''id'', JStr ''pair''), (''type'', JStr ''pair''), (''name'', JStr ''Pair''),
           (''repeatable'', JBool True)]"

definition pair_type :: jv where
  "pair_type =
     JObj [(''identifier'', JStr ''pair''), (''name'', JStr ''Post''),
           (''attributes'', JArr [pair_attribute])]"

text \<open>
  The attribute \<open>tags_min3\<close> after line 160, after line 185 and as the callback
  returns it.
\<close>

definition tags_input :: jv where
  "tags_input =
     JObj [(''type'', JStr ''string''), (''validation'', JObj []), (''label'', JStr ''Tags''),
           (''id'', JStr ''uuid-0''), (''name'', JStr ''tags--value'')]"

definition tags_stage3 :: jv where
  "tags_stage3 =
     JObj [(''name'', JStr ''Tags''), (''inputs'', JObj [(''value'', tags_input)]),
           (''id'', JStr ''tags''), (''type'', JStr ''text'')]"

definition tags_normalized :: jv where
  "tags_normalized =
     JObj [(''name'', JStr ''Tags''), (''inputs'', JObj [(''value'', tags_input)]),
           (''id'', JStr ''tags''), (''type'', JStr ''text''),
           (''repeatable'', JObj [(''min'', JNum 3), (''max'', JNum 5)])]"

definition tags_copy :: "string \<Rightarrow> jv" where
  "tags_copy i =
     JObj [(''value'',
       JObj [(''type'', JStr ''string''), (''validation'', JObj []), (''label'', JStr ''Tags''),
             (''id'', JStr (''uuid-0--'' @ i)), (''name'', JStr (''tags--value--'' @ i))])]"

definition tags_resolved :: jv where
  "tags_resolved =
     JObj [(''name'', JStr ''Tags''),
           (''inputs'', JArr [tags_copy ''0'', tags_copy ''1'', tags_copy ''2'']),
           (''id'', JStr ''tags''), (''type'', JStr ''text''),
           (''repeatable'', JObj [(''min'', JNum 3), (''max'', JNum 5)])]"

section \<open>Properties of the primitives\<close>

lemma strict_eq_prim [simp]:
  "strict_eq a (JBool b) = (a = JBool b)"
  "strict_eq a (JStr s) = (a = JStr s)"
  "strict_eq a (JNum i) = (a = JNum i)"
  by (cases a; auto)+

lemma bind_res_eq_Val: "bind_res m f = Val y \<longleftrightarrow> (\<exists>x. m = Val x \<and> f x = Val y)"
  by (cases m) auto

lemma bind_step_eq_Cont: "bind_step m f = Cont y \<longleftrightarrow> (\<exists>x. m = Cont x \<and> f x = Cont y)"
  by (cases m) auto

lemma run_res_eq_Cont: "run_res r p f = Cont y \<longleftrightarrow> (\<exists>v. r = Val v \<and> f v = Cont y)"
  by (cases r) (auto simp: run_res_def)

lemma array_elems_Val: "array_elems v = Val xs \<longleftrightarrow> v = JArr xs"
  by (cases v) auto

lemma index_of_SomeD: "index_of k n = Some i \<Longrightarrow> i < n \<and> show_nat i = k"
  unfolding index_of_def by (auto simp: find_Some_iff)

text \<open>Reading a property after an assignment.\<close>

lemma set_prop_same: "set_prop obj k v = Val obj' \<Longrightarrow> get_prop obj' k = Val v"
proof (cases obj)
  case (JArr xs)
  assume "set_prop obj k v = Val obj'"
  with JArr obtain i where i: "index_of k (length xs) = Some i" "k \<noteq> ''length''"
      "obj' = JArr (xs[i := v])"
    by (auto split: option.splits if_splits)
  from i(1) have "i < length xs" by (simp add: index_of_SomeD)
  with i show ?thesis by simp
qed (auto simp: update_conv')

lemma set_prop_other:
  "set_prop obj k v = Val obj' \<Longrightarrow> k' \<noteq> k \<Longrightarrow> get_prop obj' k' = get_prop obj k'"
proof (cases obj)
  case (JArr xs)
  assume "set_prop obj k v = Val obj'" and ne: "k' \<noteq> k"
  with JArr obtain i where i: "index_of k (length xs) = Some i" "k \<noteq> ''length''"
      "obj' = JArr (xs[i := v])"
    by (auto split: option.splits if_splits)
  have "xs[i := v] ! j = xs ! j" if "index_of k' (length xs) = Some j" for j
  proof -
    from that i(1) ne have "j \<noteq> i" by (auto dest: index_of_SomeD)
    then show ?thesis by simp
  qed
  with i JArr show ?thesis by (auto split: option.splits)
qed (auto simp: update_conv')

lemma set_prop_keys:
  "set_prop obj k v = Val obj' \<Longrightarrow> object_keys obj = Val names \<Longrightarrow> k \<in> set names \<Longrightarrow>
   object_keys obj' = Val names"
  by (cases obj) (auto simp: update_keys split: option.splits if_splits)

lemma set_prop_has_own_other:
  "set_prop obj k v = Val obj' \<Longrightarrow> k' \<noteq> k \<Longrightarrow> has_own obj' k' = has_own obj k'"
  by (cases obj) (auto simp: dom_update split: option.splits if_splits)

lemma fold_res_preserves:
  assumes "\<And>x b b'. x \<in> set xs \<Longrightarrow> f x b = Val b' \<Longrightarrow> obs b' = obs b"
  shows "fold_res f xs b = Val b' \<Longrightarrow> obs b' = obs b"
  using assms by (induction xs arbitrary: b) (auto simp: bind_res_eq_Val, metis)

section \<open>What each stage leaves alone\<close>

text \<open>
  After line 114 the callback assigns only \<^verbatim>\<open>plugin.inputs\<close>, the inputs inside it,
  and \<^verbatim>\<open>plugin.repeatable\<close>. Every other property of the plugin is as line 114 left
  it.
\<close>

lemma set_input_other:
  "set_input plugin input x = Val plugin' \<Longrightarrow> k \<noteq> ''inputs'' \<Longrightarrow>
   get_prop plugin' k = get_prop plugin k"
  by (auto simp: set_input_def bind_res_eq_Val set_prop_other)

lemma set_input_inputs:
  "set_input plugin input x = Val plugin' \<Longrightarrow>
   \<exists>inputs inputs'. get_prop plugin ''inputs'' = Val inputs \<and> set_prop inputs input x = Val inputs'
      \<and> get_prop plugin' ''inputs'' = Val inputs'"
  by (auto simp: set_input_def bind_res_eq_Val set_prop_same)

lemma default_label_other:
  "default_label plugin = Val plugin' \<Longrightarrow> k \<noteq> ''inputs'' \<Longrightarrow>
   get_prop plugin' k = get_prop plugin k"
  by (auto simp: default_label_def bind_res_eq_Val set_input_other Let_def split: if_splits)

lemma merge_input_other:
  "merge_input env overrides attr plugin = Val plugin' \<Longrightarrow> k \<noteq> ''inputs'' \<Longrightarrow>
   get_prop plugin' k = get_prop plugin k"
  by (auto simp: merge_input_def bind_res_eq_Val set_input_other split: if_splits)

lemma merge_inputs_other:
  "merge_inputs env attribute plugin = Val plugin' \<Longrightarrow> k \<noteq> ''inputs'' \<Longrightarrow>
   get_prop plugin' k = get_prop plugin k"
  by (auto simp: merge_inputs_def bind_res_eq_Val split: if_splits
           intro: fold_res_preserves [where obs = "\<lambda>b. get_prop b k"] merge_input_other)

lemma assign_id_other:
  "assign_id env input (plugin, n) = Val (plugin', n') \<Longrightarrow> k \<noteq> ''inputs'' \<Longrightarrow>
   get_prop plugin' k = get_prop plugin k"
  by (auto simp: assign_id_def bind_res_eq_Val set_input_other)

lemma assign_ids_other:
  assumes "assign_ids env plugin n = Val (plugin', n')" and "k \<noteq> ''inputs''"
  shows "get_prop plugin' k = get_prop plugin k"
proof -
  from assms(1) obtain names where
    f: "fold_res (assign_id env) names (plugin, n) = Val (plugin', n')"
    by (auto simp: assign_ids_def bind_res_eq_Val)
  have "get_prop (fst (plugin', n')) k = get_prop (fst (plugin, n)) k"
    by (rule fold_res_preserves [where obs = "\<lambda>b. get_prop (fst b) k", OF _ f])
       (use assms(2) in \<open>auto dest: assign_id_other\<close>)
  then show ?thesis by simp
qed

lemma normalize_repeatable_other:
  "normalize_repeatable repeatable plugin = Val plugin' \<Longrightarrow> k \<noteq> ''repeatable'' \<Longrightarrow>
   get_prop plugin' k = get_prop plugin k"
  by (auto simp: normalize_repeatable_def bind_res_eq_Val set_prop_other split: if_splits)

lemma expand_repeatable_other:
  "expand_repeatable attribute plugin = Val plugin' \<Longrightarrow> k \<noteq> ''repeatable'' \<Longrightarrow>
   k \<noteq> ''inputs'' \<Longrightarrow> get_prop plugin' k = get_prop plugin k"
  by (auto simp: expand_repeatable_def bind_res_eq_Val set_prop_other normalize_repeatable_other
           split: if_splits)

section \<open>The overrides of lines 98 to 114\<close>

lemma apply_overrides_id:
  assumes "apply_overrides ident attribute plugin = Val plugin'"
  shows "\<exists>aid. get_prop attribute ''id'' = Val aid \<and> get_prop plugin' ''id'' = Val aid \<and>
           (strict_eq aid ident \<longrightarrow> get_prop plugin' ''required'' = Val (JStr ''save''))"
proof -
  from assms obtain aid p1 p2 where
    aid: "get_prop attribute ''id'' = Val aid" and
    p1: "(if strict_eq aid ident then set_prop p2 ''required'' (JStr ''save'') else Val p2) = Val p1" and
    rest: "bind_res (set_prop p1 ''id'' aid)
             (\<lambda>plugin. bind_res (get_prop attribute ''type'') (\<lambda>ty. set_prop plugin ''type'' ty))
           = Val plugin'"
    unfolding apply_overrides_def bind_res_eq_Val by blast
  from rest obtain p3 ty where
    p3: "set_prop p1 ''id'' aid = Val p3" and p4: "set_prop p3 ''type'' ty = Val plugin'"
    by (auto simp: bind_res_eq_Val)
  have a: "get_prop plugin' ''id'' = Val aid"
    using p3 p4 by (simp add: set_prop_other set_prop_same)
  have b: "get_prop plugin' ''required'' = get_prop p1 ''required''"
    using p3 p4 by (simp add: set_prop_other)
  have c: "strict_eq aid ident \<Longrightarrow> get_prop p1 ''required'' = Val (JStr ''save'')"
    using p1 by (simp add: set_prop_same)
  from aid a b c show ?thesis by auto
qed

lemma apply_overrides_required_falsy:
  assumes "apply_overrides ident attribute plugin = Val plugin'"
      and "get_prop attribute ''required'' = Val required" and "\<not> truthy required"
      and "get_prop attribute ''id'' = Val aid"
  shows "get_prop plugin' ''required'' =
           (if strict_eq aid ident then Val (JStr ''save'') else get_prop plugin ''required'')"
proof -
  from assms obtain name p1 description p2 p3 p4 ty where
    s1: "(if truthy name then set_prop plugin ''name'' name else Val plugin) = Val p1" and
    s2: "(if truthy description then set_prop p1 ''description'' description else Val p1) = Val p2" and
    s3: "(if strict_eq aid ident then set_prop p2 ''required'' (JStr ''save'') else Val p2) = Val p3" and
    s4: "set_prop p3 ''id'' aid = Val p4" and
    s5: "set_prop p4 ''type'' ty = Val plugin'"
    unfolding apply_overrides_def bind_res_eq_Val by auto
  have "get_prop p1 ''required'' = get_prop plugin ''required''"
    using s1 by (auto simp: set_prop_other split: if_splits)
  moreover have "get_prop p2 ''required'' = get_prop p1 ''required''"
    using s2 by (auto simp: set_prop_other split: if_splits)
  moreover have "get_prop p3 ''required'' =
      (if strict_eq aid ident then Val (JStr ''save'') else get_prop p2 ''required'')"
    using s3 by (auto simp: set_prop_same split: if_splits)
  moreover have "get_prop plugin' ''required'' = get_prop p3 ''required''"
    using s4 s5 by (simp add: set_prop_other)
  ultimately show ?thesis by simp
qed

lemma resolve_inputs_stages:
  assumes "resolve_inputs env cat ident attribute n = Val (resolved, n')"
  shows "\<exists>ty template plugin. get_prop attribute ''type'' = Val ty \<and>
           get_prop cat (plugin_key ty) = Val template \<and>
           apply_overrides ident attribute template = Val plugin \<and>
           (\<forall>k. k \<noteq> ''inputs'' \<longrightarrow> get_prop resolved k = get_prop plugin k)"
proof -
  from assms obtain ty template p1 p2 p3 where
    ty: "get_prop attribute ''type'' = Val ty" and
    tm: "get_prop cat (plugin_key ty) = Val template" and
    s1: "apply_overrides ident attribute template = Val p1" and
    s2: "default_label p1 = Val p2" and
    s3: "merge_inputs env attribute p2 = Val p3" and
    s4: "assign_ids env p3 n = Val (resolved, n')"
    by (auto simp: resolve_inputs_def bind_res_eq_Val)
  have "get_prop resolved k = get_prop p1 k" if "k \<noteq> ''inputs''" for k
    using that default_label_other [OF s2] merge_inputs_other [OF s3] assign_ids_other [OF s4]
    by simp
  with ty tm s1 show ?thesis by blast
qed

lemma resolve_attr_stages:
  assumes "resolve_attr env cat ident attribute n = Val (resolved, n')"
  shows "\<exists>ty template plugin p4. get_prop attribute ''type'' = Val ty \<and>
           get_prop cat (plugin_key ty) = Val template \<and>
           apply_overrides ident attribute template = Val plugin \<and>
           resolve_inputs env cat ident attribute n = Val (p4, n') \<and>
           expand_repeatable attribute p4 = Val resolved \<and>
           get_prop resolved ''id'' = get_prop plugin ''id'' \<and>
           get_prop resolved ''required'' = get_prop plugin ''required''"
proof -
  from assms obtain p4 where
    s4: "resolve_inputs env cat ident attribute n = Val (p4, n')" and
    s5: "expand_repeatable attribute p4 = Val resolved"
    by (auto simp: resolve_attr_def bind_res_eq_Val split: prod.splits)
  from resolve_inputs_stages [OF s4] obtain ty template p1 where
    ty: "get_prop attribute ''type'' = Val ty" and
    tm: "get_prop cat (plugin_key ty) = Val template" and
    s1: "apply_overrides ident attribute template = Val p1" and
    k: "\<forall>k. k \<noteq> ''inputs'' \<longrightarrow> get_prop p4 k = get_prop p1 k"
    by blast
  have "get_prop resolved ''id'' = get_prop p1 ''id''"
       "get_prop resolved ''required'' = get_prop p1 ''required''"
    using k expand_repeatable_other [OF s5] by simp_all
  with ty tm s1 s4 s5 show ?thesis by blast
qed

lemma resolve_attr_identifier:
  assumes "resolve_attr env cat ident attribute n = Val (resolved, n')"
  shows "attr_saved ident resolved"
proof -
  from resolve_attr_stages [OF assms] obtain plugin template where
    "apply_overrides ident attribute template = Val plugin"
    "get_prop resolved ''id'' = get_prop plugin ''id''"
    "get_prop resolved ''required'' = get_prop plugin ''required''" by blast
  with apply_overrides_id [of ident attribute template plugin] show ?thesis
    by (auto simp: attr_saved_def)
qed

section \<open>The loops over attributes and types\<close>

lemma attr_callback_resolved:
  "attr_callback env cat ident attribute (p, ids, n) = Cont (plugin, s') \<Longrightarrow>
   \<exists>n'. resolve_attr env cat ident attribute n = Val (plugin, n')"
  by (auto simp: attr_callback_def bind_step_eq_Cont run_res_eq_Cont split: prod.splits)

lemma map_attrs_resolved:
  "map_attrs env cat ident attributes s = Cont (attrs, s') \<Longrightarrow>
   list_all2 (\<lambda>attribute attr. \<exists>n n'. resolve_attr env cat ident attribute n = Val (attr, n'))
     attributes attrs"
proof (induction attributes arbitrary: s attrs)
  case Nil
  then show ?case by simp
next
  case (Cons attribute rest)
  from Cons.prems obtain plugin s1 attrs1 where
    cb: "attr_callback env cat ident attribute s = Cont (plugin, s1)" and
    tl: "map_attrs env cat ident rest s1 = Cont (attrs1, s')" and
    eq: "attrs = plugin # attrs1"
    by (auto simp: bind_step_eq_Cont split: prod.splits)
  obtain p ids n where s: "s = (p, ids, n)" by (cases s) auto
  from cb s attr_callback_resolved obtain n' where
    "resolve_attr env cat ident attribute n = Val (plugin, n')" by blast
  with Cons.IH [OF tl] eq show ?case by auto
qed

lemma squish_type_resolved:
  assumes "squish_type env cat ty p n = Cont (attrs, p', n')"
  shows "\<exists>ident attributes. get_prop ty ''identifier'' = Val ident \<and>
           get_prop ty ''attributes'' = Val (JArr attributes) \<and>
           list_all2 (\<lambda>attribute attr. \<exists>n n'. resolve_attr env cat ident attribute n = Val (attr, n'))
             attributes attrs"
  using assms
  by (auto simp: squish_type_def run_res_eq_Cont bind_step_eq_Cont bind_res_eq_Val Let_def
        array_elems_Val split: prod.splits dest!: map_attrs_resolved)

lemma squish_type_saved:
  assumes "squish_type env cat ty p n = Cont (attrs, p', n')"
      and "set_prop ty ''attributes'' (JArr attrs) = Val ty'"
  shows "identifier_saved ty'"
proof -
  from squish_type_resolved [OF assms(1)] obtain ident atts where
    i: "get_prop ty ''identifier'' = Val ident" and
    l: "list_all2 (\<lambda>attribute attr. \<exists>n n'. resolve_attr env cat ident attribute n = Val (attr, n'))
             atts attrs" by blast
  have "get_prop ty' ''identifier'' = Val ident"
    using set_prop_other [OF assms(2), of "''identifier''"] i by simp
  moreover have "get_prop ty' ''attributes'' = Val (JArr attrs)"
    using set_prop_same [OF assms(2)] .
  moreover have "attr_saved ident attr" if "attr \<in> set attrs" for attr
  proof -
    from that l obtain attribute n n' where
      "resolve_attr env cat ident attribute n = Val (attr, n')"
      by (auto simp: list_all2_conv_all_nth in_set_conv_nth)
    then show ?thesis by (rule resolve_attr_identifier)
  qed
  ultimately show ?thesis by (simp add: identifier_saved_def list_all_iff)
qed


lemma squish_types_saved:
  assumes "squish_types env addrs p n st = Mapped p' n' st'"
      and "\<forall>a \<in> S. identifier_saved (st a)"
  shows "\<forall>a \<in> S \<union> set addrs. identifier_saved (st' a)"
  using assms
proof (induction addrs arbitrary: p n st S)
  case Nil
  then show ?case by simp
next
  case (Cons a as)
  from Cons.prems(1) obtain attrs p1 n1 ty' where
    t: "squish_type env (st (plugins env)) (st a) p n = Cont (attrs, p1, n1)" and
    w: "set_prop (st a) ''attributes'' (JArr attrs) = Val ty'" and
    r: "squish_types env as p1 n1 (st(a := ty')) = Mapped p' n' st'"
    by (auto split: step.splits res.splits prod.splits)
  have "\<forall>b \<in> insert a S. identifier_saved ((st(a := ty')) b)"
    using Cons.prems(2) squish_type_saved [OF t w] by simp
  from Cons.IH [OF r this] show ?case by simp
qed





lemma squish_cases:
  assumes "squish env types st = Finished out st'"
  shows "(\<exists>v. types = NonArray v \<and> st' = st \<and> out = Rejected NotAnArray) \<or>
         (\<exists>addrs p n. types = TypesArray addrs \<and>
            squish_types env addrs None 0 st = Mapped p n st' \<and> resolve addrs p = out) \<or>
         (\<exists>addrs p. types = TypesArray addrs \<and>
            squish_types env addrs None 0 st = Thrown p st' \<and> thrown p = out)"
  using assms
  by (cases types) (auto simp: squish_def reject_def thrown_def split: mapped.splits)

lemma thrown_not_Resolved: "thrown p \<noteq> Resolved v"
  by (simp add: thrown_def split: option.splits)


section \<open>The merged input\<close>

lemma set_prop_has_own_same: "set_prop obj k v = Val obj' \<Longrightarrow> has_own obj' k = Val True"
proof (cases obj)
  case (JArr xs)
  assume "set_prop obj k v = Val obj'"
  with JArr show ?thesis by (auto split: option.splits if_splits)
qed (auto simp: dom_update)

lemma override_input_fields:
  assumes "override_input env plugin template override = Val resolved"
  shows "\<exists>merged. merge env template override = Val merged \<and>
     get_prop resolved ''validation'' = get_prop template ''validation'' \<and>
     get_prop resolved ''type'' = get_prop template ''type'' \<and>
     get_prop resolved ''script'' =
       (if has_own template ''script'' = Val True then get_prop template ''script''
        else get_prop merged ''script'') \<and>
     has_own resolved ''script'' =
       (if has_own template ''script'' = Val True then Val True else has_own merged ''script'') \<and>
     (has_own override ''options'' = Val True \<longrightarrow>
        get_prop resolved ''options'' = get_prop override ''options'')"
proof -
  from assms obtain merged validation m1 ty m2 has_script m3 has_options m4 has_required where
    mg: "merge env template override = Val merged" and
    v: "get_prop template ''validation'' = Val validation" and
    m1: "set_prop merged ''validation'' validation = Val m1" and
    t: "get_prop template ''type'' = Val ty" and
    m2: "set_prop m1 ''type'' ty = Val m2" and
    hs: "has_own template ''script'' = Val has_script" and
    m3: "(if has_script then bind_res (get_prop template ''script'') (set_prop m2 ''script'')
          else Val m2) = Val m3" and
    ho: "has_own override ''options'' = Val has_options" and
    m4: "(if has_options then bind_res (get_prop override ''options'') (set_prop m3 ''options'')
          else Val m3) = Val m4" and
    hr: "has_own m4 ''required'' = Val has_required" and
    m5: "(if \<not> has_required
          then bind_res (get_prop plugin ''required'') (set_prop m4 ''required'')
          else bind_res (get_prop m4 ''required'')
                 (\<lambda>r. set_prop m4 ''required'' (requiredLevel r))) = Val resolved"
    unfolding override_input_def bind_res_eq_Val by blast
  have k5: "get_prop resolved k = get_prop m4 k" "has_own resolved k = has_own m4 k"
    if "k \<noteq> ''required''" for k
    using m5 that
    by (auto simp: bind_res_eq_Val set_prop_other set_prop_has_own_other split: if_splits)
  have k4: "get_prop m4 k = get_prop m3 k" "has_own m4 k = has_own m3 k"
    if "k \<noteq> ''options''" for k
    using m4 that
    by (auto simp: bind_res_eq_Val set_prop_other set_prop_has_own_other split: if_splits)
  have k3: "get_prop m3 k = get_prop m2 k" "has_own m3 k = has_own m2 k"
    if "k \<noteq> ''script''" for k
    using m3 that
    by (auto simp: bind_res_eq_Val set_prop_other set_prop_has_own_other split: if_splits)
  have k2: "get_prop m2 k = get_prop m1 k" "has_own m2 k = has_own m1 k" if "k \<noteq> ''type''" for k
    using m2 that by (simp_all add: set_prop_other set_prop_has_own_other)
  have k1: "get_prop m1 k = get_prop merged k" "has_own m1 k = has_own merged k"
    if "k \<noteq> ''validation''" for k
    using m1 that by (simp_all add: set_prop_other set_prop_has_own_other)
  have "get_prop resolved ''validation'' = get_prop template ''validation''"
    using k5 k4 k3 k2 set_prop_same [OF m1] v by simp
  moreover have "get_prop resolved ''type'' = get_prop template ''type''"
    using k5 k4 k3 set_prop_same [OF m2] t by simp
  moreover have "get_prop resolved ''script'' =
       (if has_own template ''script'' = Val True then get_prop template ''script''
        else get_prop merged ''script'')"
  proof (cases has_script)
    case True
    with m3 have "get_prop m3 ''script'' = get_prop template ''script''"
      by (auto simp: bind_res_eq_Val set_prop_same)
    with True hs k5 k4 show ?thesis by simp
  next
    case False
    with m3 have "m3 = m2" by simp
    with False hs k5 k4 k2 k1 show ?thesis by simp
  qed
  moreover have "has_own resolved ''script'' =
       (if has_own template ''script'' = Val True then Val True else has_own merged ''script'')"
  proof (cases has_script)
    case True
    with m3 have "has_own m3 ''script'' = Val True"
      by (auto simp: bind_res_eq_Val set_prop_has_own_same)
    with True hs k5 k4 show ?thesis by simp
  next
    case False
    with m3 have "m3 = m2" by simp
    with False hs k5 k4 k2 k1 show ?thesis by simp
  qed
  moreover have "get_prop resolved ''options'' = get_prop override ''options''"
    if "has_own override ''options'' = Val True"
  proof -
    from that ho have has_options by simp
    with m4 have "get_prop m4 ''options'' = get_prop override ''options''"
      by (auto simp: bind_res_eq_Val set_prop_same)
    with k5 show ?thesis by simp
  qed
  ultimately show ?thesis using mg by blast
qed

subsection \<open>The input from the template to line 160\<close>

lemma same_except_refl: "same_except S a a"
  by (simp add: same_except_def)

lemma same_except_set:
  "set_prop a k v = Val b \<Longrightarrow> k \<in> S \<Longrightarrow> same_except S a b"
  unfolding same_except_def
  by (metis set_prop_other set_prop_has_own_other)

lemma same_except_trans:
  "same_except S a b \<Longrightarrow> same_except S b c \<Longrightarrow> same_except S a c"
  by (simp add: same_except_def)

lemma apply_overrides_inputs:
  assumes "apply_overrides ident attribute plugin = Val plugin'"
  shows "get_prop plugin' ''inputs'' = get_prop plugin ''inputs''"
proof -
  from assms obtain name p1 description p2 required p3 aid p4 p5 ty where
    s1: "(if truthy name then set_prop plugin ''name'' name else Val plugin) = Val p1" and
    s2: "(if truthy description then set_prop p1 ''description'' description else Val p1) = Val p2" and
    s3: "(if truthy required then set_prop p2 ''required'' (requiredLevel required) else Val p2)
           = Val p3" and
    s4: "(if strict_eq aid ident then set_prop p3 ''required'' (JStr ''save'') else Val p3) = Val p4" and
    s5: "set_prop p4 ''id'' aid = Val p5" and
    s6: "set_prop p5 ''type'' ty = Val plugin'"
    unfolding apply_overrides_def bind_res_eq_Val by auto
  have "get_prop p1 ''inputs'' = get_prop plugin ''inputs''"
    using s1 by (auto simp: set_prop_other split: if_splits)
  moreover have "get_prop p2 ''inputs'' = get_prop p1 ''inputs''"
    using s2 by (auto simp: set_prop_other split: if_splits)
  moreover have "get_prop p3 ''inputs'' = get_prop p2 ''inputs''"
    using s3 by (auto simp: set_prop_other split: if_splits)
  moreover have "get_prop p4 ''inputs'' = get_prop p3 ''inputs''"
    using s4 by (auto simp: set_prop_other split: if_splits)
  moreover have "get_prop plugin' ''inputs'' = get_prop p4 ''inputs''"
    using s5 s6 by (simp add: set_prop_other)
  ultimately show ?thesis by simp
qed

text \<open>Replacing one input by an input that differs from it only in the properties \<open>S\<close>.\<close>

lemma set_input_entry:
  assumes s: "set_input plugin k x = Val plugin'"
      and g: "get_prop plugin ''inputs'' = Val inputs"
      and n: "object_keys inputs = Val names" "k \<in> set names"
      and o: "get_prop inputs k = Val old" "same_except S old x"
  shows "\<exists>inputs'. get_prop plugin' ''inputs'' = Val inputs' \<and> object_keys inputs' = Val names \<and>
           (\<forall>k' inp. get_prop inputs k' = Val inp \<longrightarrow>
              (\<exists>inp'. get_prop inputs' k' = Val inp' \<and> same_except S inp inp'))"
proof -
  from set_input_inputs [OF s] g obtain inputs' where
    u: "set_prop inputs k x = Val inputs'" and g': "get_prop plugin' ''inputs'' = Val inputs'"
    by auto
  have "\<exists>inp'. get_prop inputs' k' = Val inp' \<and> same_except S inp inp'"
    if "get_prop inputs k' = Val inp" for k' inp
  proof (cases "k' = k")
    case True
    with that o set_prop_same [OF u] show ?thesis by simp
  next
    case False
    with set_prop_other [OF u, of k'] that show ?thesis by (simp add: same_except_refl)
  qed
  with g' set_prop_keys [OF u n] show ?thesis by blast
qed

lemma default_label_inputs:
  assumes d: "default_label plugin = Val plugin'"
      and g: "get_prop plugin ''inputs'' = Val inputs"
      and n: "object_keys inputs = Val names"
  shows "\<exists>inputs'. get_prop plugin' ''inputs'' = Val inputs' \<and> object_keys inputs' = Val names \<and>
           (\<forall>k inp. get_prop inputs k = Val inp \<longrightarrow>
              (\<exists>inp'. get_prop inputs' k = Val inp' \<and> same_except {''label''} inp inp'))"
proof (cases "length names = 1")
  case False
  with d g n have "plugin' = plugin" by (simp add: default_label_def)
  with g n show ?thesis by (auto simp: same_except_refl)
next
  case True
  with d g n obtain inp name inp' where
    a: "get_prop inputs (hd names) = Val inp" and
    b: "set_prop inp ''label'' name = Val inp'" and
    c: "set_input plugin (hd names) inp' = Val plugin'"
    by (auto simp: default_label_def bind_res_eq_Val Let_def)
  from True have "hd names \<in> set names" by (cases names) auto
  from set_input_entry [OF c g n this a same_except_set [OF b]] show ?thesis by simp
qed

lemma assign_id_inputs:
  assumes s: "assign_id env k (plugin, n) = Val (plugin', n')"
      and g: "get_prop plugin ''inputs'' = Val inputs"
      and n: "object_keys inputs = Val names" "k \<in> set names"
  shows "\<exists>inputs'. get_prop plugin' ''inputs'' = Val inputs' \<and> object_keys inputs' = Val names \<and>
           (\<forall>k' inp. get_prop inputs k' = Val inp \<longrightarrow>
              (\<exists>inp'. get_prop inputs' k' = Val inp' \<and> same_except {''id'', ''name''} inp inp'))"
proof -
  from s g obtain inp idv inp1 nm inp2 where
    a: "get_prop inputs k = Val inp" and
    b: "set_prop inp ''id'' idv = Val inp1" and
    c: "set_prop inp1 ''name'' nm = Val inp2" and
    d: "set_input plugin k inp2 = Val plugin'"
    by (auto simp: assign_id_def bind_res_eq_Val)
  have "same_except {''id'', ''name''} inp inp2"
    by (rule same_except_trans [OF same_except_set [OF b] same_except_set [OF c]]) simp_all
  from set_input_entry [OF d g n a this] show ?thesis .
qed

lemma fold_assign_inputs:
  assumes "fold_res (assign_id env) ks (plugin, n) = Val (plugin', n')"
      and "get_prop plugin ''inputs'' = Val inputs"
      and "object_keys inputs = Val names" and "set ks \<subseteq> set names"
  shows "\<exists>inputs'. get_prop plugin' ''inputs'' = Val inputs' \<and> object_keys inputs' = Val names \<and>
           (\<forall>k inp. get_prop inputs k = Val inp \<longrightarrow>
              (\<exists>inp'. get_prop inputs' k = Val inp' \<and> same_except {''id'', ''name''} inp inp'))"
  using assms
proof (induction ks arbitrary: plugin n inputs)
  case Nil
  then show ?case by (auto simp: same_except_refl)
next
  case (Cons x xs)
  from Cons.prems(1) obtain p1 n1 where
    s: "assign_id env x (plugin, n) = Val (p1, n1)" and
    r: "fold_res (assign_id env) xs (p1, n1) = Val (plugin', n')"
    by (auto simp: bind_res_eq_Val)
  from Cons.prems(4) have xn: "x \<in> set names" and sub: "set xs \<subseteq> set names" by simp_all
  from assign_id_inputs [OF s Cons.prems(2,3) xn] obtain inputs1 where
    g1: "get_prop p1 ''inputs'' = Val inputs1" and k1: "object_keys inputs1 = Val names" and
    r1: "\<forall>k inp. get_prop inputs k = Val inp \<longrightarrow>
           (\<exists>inp'. get_prop inputs1 k = Val inp' \<and> same_except {''id'', ''name''} inp inp')"
    by blast
  from Cons.IH [OF r g1 k1 sub] obtain inputs' where
    g': "get_prop plugin' ''inputs'' = Val inputs'" and k': "object_keys inputs' = Val names" and
    r': "\<forall>k inp. get_prop inputs1 k = Val inp \<longrightarrow>
           (\<exists>inp'. get_prop inputs' k = Val inp' \<and> same_except {''id'', ''name''} inp inp')"
    by blast
  have "\<exists>inp'. get_prop inputs' k = Val inp' \<and> same_except {''id'', ''name''} inp inp'"
    if "get_prop inputs k = Val inp" for k inp
  proof -
    from r1 that obtain inp1 where
      a: "get_prop inputs1 k = Val inp1" "same_except {''id'', ''name''} inp inp1" by blast
    from r' a(1) obtain inp' where
      b: "get_prop inputs' k = Val inp'" "same_except {''id'', ''name''} inp1 inp'" by blast
    from same_except_trans [OF a(2) b(2)] b(1) show ?thesis by blast
  qed
  with g' k' show ?case by blast
qed

lemma assign_ids_inputs:
  assumes "assign_ids env plugin n = Val (plugin', n')"
      and "get_prop plugin ''inputs'' = Val inputs"
  shows "\<exists>inputs'. get_prop plugin' ''inputs'' = Val inputs' \<and>
           (\<forall>k inp. get_prop inputs k = Val inp \<longrightarrow>
              (\<exists>inp'. get_prop inputs' k = Val inp' \<and> same_except {''id'', ''name''} inp inp'))"
proof -
  from assms obtain names where
    k: "object_keys inputs = Val names" and
    f: "fold_res (assign_id env) names (plugin, n) = Val (plugin', n')"
    by (auto simp: assign_ids_def bind_res_eq_Val)
  from fold_assign_inputs [OF f assms(2) k subset_refl] show ?thesis by blast
qed

lemma object_keys_truthy: "object_keys v = Val ks \<Longrightarrow> k \<in> set ks \<Longrightarrow> truthy v"
  by (cases v) auto

lemma merge_input_rest:
  assumes m: "merge_input env overrides a plugin = Val plugin'"
      and g: "get_prop plugin ''inputs'' = Val inputs"
      and n: "object_keys inputs = Val names"
  shows "\<exists>inputs'. get_prop plugin' ''inputs'' = Val inputs' \<and> object_keys inputs' = Val names \<and>
           (\<forall>k. k \<noteq> a \<longrightarrow> get_prop inputs' k = get_prop inputs k)"
proof (cases "a \<in> set names")
  case False
  with m g n have "plugin' = plugin" by (simp add: merge_input_def)
  with g n show ?thesis by simp
next
  case True
  with m g n obtain merged where s: "set_input plugin a merged = Val plugin'"
    by (auto simp: merge_input_def bind_res_eq_Val)
  from set_input_inputs [OF s] g obtain inputs' where
    u: "set_prop inputs a merged = Val inputs'" and g': "get_prop plugin' ''inputs'' = Val inputs'"
    by auto
  from g' set_prop_keys [OF u n True] set_prop_other [OF u] show ?thesis by simp
qed

lemma merge_input_fields:
  assumes "merge_input env overrides attr plugin = Val plugin'"
      and "get_prop plugin ''inputs'' = Val inputs"
      and "object_keys inputs = Val names" and "attr \<in> set names"
      and "get_prop inputs attr = Val template"
      and "get_prop overrides attr = Val override"
  shows "\<exists>inputs' resolved.
     get_prop plugin' ''inputs'' = Val inputs' \<and> get_prop inputs' attr = Val resolved \<and>
     get_prop resolved ''validation'' = get_prop template ''validation'' \<and>
     get_prop resolved ''type'' = get_prop template ''type'' \<and>
     (has_own template ''script'' = Val True \<longrightarrow>
        has_own resolved ''script'' = Val True \<and>
        get_prop resolved ''script'' = get_prop template ''script'') \<and>
     (has_own override ''options'' = Val True \<longrightarrow>
        get_prop resolved ''options'' = get_prop override ''options'')"
proof -
  from assms obtain resolved where
    o: "override_input env plugin template override = Val resolved" and
    s: "set_input plugin attr resolved = Val plugin'"
    by (auto simp: merge_input_def bind_res_eq_Val)
  from set_input_inputs [OF s] assms(2) obtain inputs' where
    i: "set_prop inputs attr resolved = Val inputs'" "get_prop plugin' ''inputs'' = Val inputs'"
    by auto
  from i(1) have g: "get_prop inputs' attr = Val resolved" by (rule set_prop_same)
  from override_input_fields [OF o] have
    "get_prop resolved ''validation'' = get_prop template ''validation''"
    "get_prop resolved ''type'' = get_prop template ''type''"
    "has_own template ''script'' = Val True \<longrightarrow>
        has_own resolved ''script'' = Val True \<and>
        get_prop resolved ''script'' = get_prop template ''script''"
    "has_own override ''options'' = Val True \<longrightarrow>
        get_prop resolved ''options'' = get_prop override ''options''"
    by auto
  with i(2) g show ?thesis by blast
qed

lemma fold_merge_fields:
  assumes "fold_res (merge_input env overrides) ks plugin = Val plugin'"
      and "get_prop plugin ''inputs'' = Val inputs"
      and "object_keys inputs = Val names" and "attr \<in> set names"
      and "get_prop inputs attr = Val cur"
      and "get_prop overrides attr = Val override"
      and "get_prop cur ''validation'' = get_prop template ''validation''"
      and "get_prop cur ''type'' = get_prop template ''type''"
      and "has_own template ''script'' = Val True \<longrightarrow>
             has_own cur ''script'' = Val True \<and>
             get_prop cur ''script'' = get_prop template ''script''"
  shows "\<exists>inputs' resolved.
     get_prop plugin' ''inputs'' = Val inputs' \<and> get_prop inputs' attr = Val resolved \<and>
     get_prop resolved ''validation'' = get_prop template ''validation'' \<and>
     get_prop resolved ''type'' = get_prop template ''type'' \<and>
     (has_own template ''script'' = Val True \<longrightarrow>
        has_own resolved ''script'' = Val True \<and>
        get_prop resolved ''script'' = get_prop template ''script'') \<and>
     (attr \<in> set ks \<longrightarrow> has_own override ''options'' = Val True \<longrightarrow>
        get_prop resolved ''options'' = get_prop override ''options'') \<and>
     (attr \<notin> set ks \<longrightarrow> resolved = cur)"
  using assms
proof (induction ks arbitrary: plugin inputs cur)
  case Nil
  then show ?case by simp
next
  case (Cons x xs)
  from Cons.prems(1) obtain p1 where
    s: "merge_input env overrides x plugin = Val p1" and
    r: "fold_res (merge_input env overrides) xs p1 = Val plugin'"
    by (auto simp: bind_res_eq_Val)
  from merge_input_rest [OF s Cons.prems(2,3)] obtain inputs1 where
    g1: "get_prop p1 ''inputs'' = Val inputs1" and k1: "object_keys inputs1 = Val names" and
    e1: "\<forall>k. k \<noteq> x \<longrightarrow> get_prop inputs1 k = get_prop inputs k"
    by blast
  show ?case
  proof (cases "x = attr")
    case True
    from merge_input_fields [OF s [unfolded True] Cons.prems(2,3,4,5,6)] g1
    obtain r1 where
      f: "get_prop inputs1 attr = Val r1"
         "get_prop r1 ''validation'' = get_prop cur ''validation''"
         "get_prop r1 ''type'' = get_prop cur ''type''"
         "has_own cur ''script'' = Val True \<longrightarrow>
            has_own r1 ''script'' = Val True \<and> get_prop r1 ''script'' = get_prop cur ''script''"
         "has_own override ''options'' = Val True \<longrightarrow>
            get_prop r1 ''options'' = get_prop override ''options''"
      by auto
    from f(2,3,4) Cons.prems(7,8,9) have t:
      "get_prop r1 ''validation'' = get_prop template ''validation''"
      "get_prop r1 ''type'' = get_prop template ''type''"
      "has_own template ''script'' = Val True \<longrightarrow>
         has_own r1 ''script'' = Val True \<and> get_prop r1 ''script'' = get_prop template ''script''"
      by simp_all
    from Cons.IH [OF r g1 k1 Cons.prems(4) f(1) Cons.prems(6) t] obtain inputs' resolved where
      i: "get_prop plugin' ''inputs'' = Val inputs'" "get_prop inputs' attr = Val resolved"
         "get_prop resolved ''validation'' = get_prop template ''validation''"
         "get_prop resolved ''type'' = get_prop template ''type''"
         "has_own template ''script'' = Val True \<longrightarrow>
            has_own resolved ''script'' = Val True \<and>
            get_prop resolved ''script'' = get_prop template ''script''"
         "attr \<in> set xs \<longrightarrow> has_own override ''options'' = Val True \<longrightarrow>
            get_prop resolved ''options'' = get_prop override ''options''"
         "attr \<notin> set xs \<longrightarrow> resolved = r1"
      by blast
    from i(6,7) f(5) have "has_own override ''options'' = Val True \<longrightarrow>
        get_prop resolved ''options'' = get_prop override ''options''"
      by blast
    with i(1-5) True show ?thesis by auto
  next
    case False
    with e1 Cons.prems(5) have c1: "get_prop inputs1 attr = Val cur" by simp
    from Cons.IH [OF r g1 k1 Cons.prems(4) c1 Cons.prems(6,7,8,9)] False show ?thesis
      by simp
  qed
qed

lemma merge_inputs_fields:
  assumes m: "merge_inputs env attribute plugin = Val plugin'"
      and ov: "get_prop attribute ''inputs'' = Val overrides" "object_keys overrides = Val attrs"
        "attr \<in> set attrs" "get_prop overrides attr = Val override"
      and g: "get_prop plugin ''inputs'' = Val inputs" "object_keys inputs = Val names"
        "attr \<in> set names" "get_prop inputs attr = Val template"
  shows "\<exists>inputs' resolved.
     get_prop plugin' ''inputs'' = Val inputs' \<and> get_prop inputs' attr = Val resolved \<and>
     get_prop resolved ''validation'' = get_prop template ''validation'' \<and>
     get_prop resolved ''type'' = get_prop template ''type'' \<and>
     (has_own template ''script'' = Val True \<longrightarrow>
        has_own resolved ''script'' = Val True \<and>
        get_prop resolved ''script'' = get_prop template ''script'') \<and>
     (has_own override ''options'' = Val True \<longrightarrow>
        get_prop resolved ''options'' = get_prop override ''options'')"
proof -
  from object_keys_truthy [OF ov(2,3)] have "truthy overrides" .
  with m ov(1,2) have f: "fold_res (merge_input env overrides) attrs plugin = Val plugin'"
    by (simp add: merge_inputs_def)
  from fold_merge_fields [OF f g(1,2,3,4) ov(4), of template] ov(3) show ?thesis by auto
qed

section \<open>The repeatable expansion\<close>

lemma map_of_Some_key: "map_of ps k = Some v \<Longrightarrow> k \<in> fst ` set ps"
  by (metis domI dom_map_of_conv_image_fst)

lemma normalize_min:
  assumes "map_of spec ''min'' = Some mn"
      and "normalize_repeatable (JObj spec) plugin = Val plugin'"
  shows "\<exists>mx. get_prop plugin' ''repeatable'' = Val (JObj [(''min'', mn), (''max'', mx)])"
  using assms
  by (auto simp: normalize_repeatable_def bind_res_eq_Val set_prop_same
      dest: map_of_Some_key split: if_splits)

lemma expand_min_zero:
  assumes rep: "get_prop attribute ''repeatable'' = Val (JObj spec)"
      and mn: "map_of spec ''min'' = Some (JNum 0)"
      and ex: "expand_repeatable attribute plugin = Val plugin'"
  shows "get_prop plugin' ''inputs'' = Val (JArr [])"
proof -
  from ex rep obtain p2 r mn' count inputs pluginInputs where
    n: "normalize_repeatable (JObj spec) plugin = Val p2" and
    r: "get_prop p2 ''repeatable'' = Val r" and
    m: "get_prop r ''min'' = Val mn'" and
    c: "loop_count mn' = Val count" and
    l: "map_res (make_instance inputs) [0..<count] = Val pluginInputs" and
    s: "set_prop p2 ''inputs'' (JArr pluginInputs) = Val plugin'"
    by (auto simp: expand_repeatable_def bind_res_eq_Val)
  from normalize_min [OF mn n] r m have "mn' = JNum 0" by auto
  with c have "count = 0" by simp
  with l have "pluginInputs = []" by simp
  with s show ?thesis by (simp add: set_prop_same)
qed

lemma expand_min_zero_returns:
  assumes rep: "get_prop attribute ''repeatable'' = Val (JObj spec)"
      and mn: "map_of spec ''min'' = Some (JNum 0)"
  shows "\<exists>plugin'. expand_repeatable attribute (JObj ps) = Val plugin'"
  using assms
  by (auto simp: expand_repeatable_def normalize_repeatable_def bind_res_eq_Val update_conv'
      dest: map_of_Some_key)

lemma resolved_field_Val:
  "resolved_field env cat ident attribute k = Val v \<longleftrightarrow>
   (\<exists>resolved n'. resolve_attr env cat ident attribute 0 = Val (resolved, n') \<and>
      get_prop resolved k = Val v)"
  by (auto simp: resolved_field_def bind_res_eq_Val)

lemma map_res_nth:
  "map_res f xs = Val ys \<Longrightarrow> length ys = length xs \<and> (\<forall>j < length xs. f (xs ! j) = Val (ys ! j))"
proof (induction xs arbitrary: ys)
  case Nil
  then show ?case by simp
next
  case (Cons x xs)
  from Cons.prems obtain y ys' where
    y: "f x = Val y" and t: "map_res f xs = Val ys'" and e: "ys = y # ys'"
    by (auto simp: bind_res_eq_Val)
  from Cons.IH [OF t] y e show ?case by (auto simp: nth_Cons split: nat.splits)
qed

lemma suffix_input_entry:
  assumes "suffix_input i k inputs = Val inputs'"
  shows "\<exists>inp c. get_prop inputs k = Val inp \<and> get_prop inputs' k = Val c \<and> suffixed i inp c"
proof -
  from assms obtain inp idv c1 nmv c2 where
    a: "get_prop inputs k = Val inp" and
    b: "get_prop inp ''id'' = Val idv" and
    c: "set_prop inp ''id'' (JStr (to_string idv @ ''--'' @ show_nat i)) = Val c1" and
    d: "get_prop c1 ''name'' = Val nmv" and
    e: "set_prop c1 ''name'' (JStr (to_string nmv @ ''--'' @ show_nat i)) = Val c2" and
    f: "set_prop inputs k c2 = Val inputs'"
    unfolding suffix_input_def bind_res_eq_Val by blast
  have "get_prop inputs' k = Val c2" using f by (rule set_prop_same)
  moreover have "get_prop inp ''name'' = Val nmv"
    using set_prop_other [OF c, of "''name''"] d by simp
  moreover have "get_prop c2 ''id'' = Val (JStr (to_string idv @ ''--'' @ show_nat i))"
    using set_prop_other [OF e, of "''id''"] set_prop_same [OF c] by simp
  moreover have "get_prop c2 ''name'' = Val (JStr (to_string nmv @ ''--'' @ show_nat i))"
    using e by (rule set_prop_same)
  moreover have "get_prop c2 f = get_prop inp f" if "f \<noteq> ''id''" "f \<noteq> ''name''" for f
    using set_prop_other [OF e, of f] set_prop_other [OF c, of f] that by simp
  ultimately have "get_prop inputs' k = Val c2" and "suffixed i inp c2"
    using b unfolding suffixed_def by blast+
  with a show ?thesis by blast
qed

lemma suffix_input_rest:
  assumes "suffix_input i k inputs = Val inputs'"
  shows "(\<forall>k'. k' \<noteq> k \<longrightarrow> get_prop inputs' k' = get_prop inputs k') \<and>
         (\<forall>names. object_keys inputs = Val names \<longrightarrow> k \<in> set names \<longrightarrow>
            object_keys inputs' = Val names)"
proof -
  from assms obtain c2 where f: "set_prop inputs k c2 = Val inputs'"
    unfolding suffix_input_def bind_res_eq_Val by blast
  then show ?thesis by (auto simp: set_prop_other intro: set_prop_keys)
qed

lemma fold_suffix:
  assumes "distinct ks" and "set ks \<subseteq> set names" and "object_keys b = Val names"
      and "fold_res (suffix_input i) ks b = Val b'"
  shows "object_keys b' = Val names \<and>
         (\<forall>k \<in> set ks. \<exists>inp c. get_prop b k = Val inp \<and> get_prop b' k = Val c \<and> suffixed i inp c) \<and>
         (\<forall>k. k \<notin> set ks \<longrightarrow> get_prop b' k = get_prop b k)"
  using assms
proof (induction ks arbitrary: b)
  case Nil
  then show ?case by simp
next
  case (Cons x xs)
  from Cons.prems(4) obtain b1 where
    s: "suffix_input i x b = Val b1" and r: "fold_res (suffix_input i) xs b1 = Val b'"
    by (auto simp: bind_res_eq_Val)
  from suffix_input_rest [OF s] have
    o1: "\<forall>k'. k' \<noteq> x \<longrightarrow> get_prop b1 k' = get_prop b k'" and
    kk: "\<forall>names. object_keys b = Val names \<longrightarrow> x \<in> set names \<longrightarrow> object_keys b1 = Val names"
    by blast+
  from Cons.prems(2) have "x \<in> set names" by simp
  with kk Cons.prems(3) have k1: "object_keys b1 = Val names" by blast
  from Cons.prems have d: "distinct xs" "set xs \<subseteq> set names" "x \<notin> set xs" by auto
  from Cons.IH [OF d(1) d(2) k1 r] have
    ih1: "object_keys b' = Val names" and
    ih2: "\<forall>k \<in> set xs. \<exists>inp c. get_prop b1 k = Val inp \<and> get_prop b' k = Val c \<and> suffixed i inp c" and
    ih3: "\<forall>k. k \<notin> set xs \<longrightarrow> get_prop b' k = get_prop b1 k"
    by blast+
  from suffix_input_entry [OF s] obtain inp c where
    x: "get_prop b x = Val inp" "get_prop b1 x = Val c" "suffixed i inp c"
    by blast
  have "\<exists>inp c. get_prop b k = Val inp \<and> get_prop b' k = Val c \<and> suffixed i inp c"
    if "k \<in> set (x # xs)" for k
  proof (cases "k = x")
    case True
    from ih3 d(3) have "get_prop b' x = get_prop b1 x" by simp
    with x True show ?thesis by simp
  next
    case False
    with that have kx: "k \<in> set xs" by simp
    from o1 False have "get_prop b1 k = get_prop b k" by simp
    with ih2 kx show ?thesis by force
  qed
  moreover have "get_prop b' k = get_prop b k" if "k \<notin> set (x # xs)" for k
  proof -
    from that have "k \<notin> set xs" "k \<noteq> x" by simp_all
    with ih3 o1 show ?thesis by simp
  qed
  ultimately show ?case using ih1 by simp
qed

lemma make_instance_copy:
  assumes "make_instance inputs i = Val copy" and "object_keys inputs = Val names"
      and "distinct names"
  shows "object_keys copy = Val names \<and>
         (\<forall>k \<in> set names. \<exists>inp c. get_prop inputs k = Val inp \<and> get_prop copy k = Val c \<and>
            suffixed i inp c)"
proof -
  from assms(1,2) have "fold_res (suffix_input i) names inputs = Val copy"
    by (simp add: make_instance_def)
  from fold_suffix [OF assms(3) subset_refl assms(2) this] show ?thesis by blast
qed

lemma expand_repeatable_copies:
  assumes rep: "get_prop attribute ''repeatable'' = Val rep" "truthy rep"
      and norm: "normalize_repeatable rep plugin = Val plugin1"
      and spec: "get_prop plugin1 ''repeatable'' = Val spec"
      and mn: "get_prop spec ''min'' = Val (JNum (int m))"
      and inputs: "get_prop plugin ''inputs'' = Val inputs"
      and ex: "expand_repeatable attribute plugin = Val resolved"
  shows "\<exists>copies. get_prop resolved ''inputs'' = Val (JArr copies) \<and> length copies = m \<and>
           get_prop resolved ''repeatable'' = Val spec \<and>
           (\<forall>i < m. make_instance inputs i = Val (copies ! i))"
proof -
  from ex rep norm spec mn obtain inputs1 copies where
    i1: "get_prop plugin1 ''inputs'' = Val inputs1" and
    l: "map_res (make_instance inputs1) [0..<m] = Val copies" and
    s: "set_prop plugin1 ''inputs'' (JArr copies) = Val resolved"
    by (auto simp: expand_repeatable_def bind_res_eq_Val)
  from normalize_repeatable_other [OF norm, of "''inputs''"] i1 inputs
  have "inputs1 = inputs" by simp
  with map_res_nth [OF l] have
    "length copies = m" "\<forall>i < m. make_instance inputs i = Val (copies ! i)" by auto
  moreover have "get_prop resolved ''inputs'' = Val (JArr copies)"
    using s by (rule set_prop_same)
  moreover have "get_prop resolved ''repeatable'' = Val spec"
    using set_prop_other [OF s, of "''repeatable''"] spec by simp
  ultimately show ?thesis by blast
qed

subsection \<open>The expansion returns\<close>

text \<open>
  After line 160 the plugin is an object and each of its inputs is an object (lines 158
  and 159 have assigned to it), so none of the assignments of lines 192, 193 and 197
  throws.
\<close>

lemma get_obj_set_prop:
  "get_prop b k = Val (JObj ps) \<Longrightarrow> \<exists>b'. set_prop b k v = Val b'"
  by (cases b) (auto split: if_splits option.splits)

lemma suffix_input_returns:
  assumes "get_prop b k = Val (JObj ps)"
  shows "\<exists>b' ps'. suffix_input i k b = Val b' \<and> get_prop b' k = Val (JObj ps')"
proof -
  obtain c2 where c2: "bind_res (get_prop (JObj ps) ''id'') (\<lambda>id.
     bind_res (set_prop (JObj ps) ''id'' (JStr (to_string id @ ''--'' @ show_nat i))) (\<lambda>inp.
     bind_res (get_prop inp ''name'') (\<lambda>name.
     set_prop inp ''name'' (JStr (to_string name @ ''--'' @ show_nat i))))) = Val (JObj c2)"
    by simp
  from get_obj_set_prop [OF assms] obtain b' where b: "set_prop b k (JObj c2) = Val b'" by blast
  from c2 b assms have "suffix_input i k b = Val b'"
    by (simp add: suffix_input_def)
  with set_prop_same [OF b] show ?thesis by blast
qed

lemma fold_suffix_returns:
  "\<forall>k \<in> set ks. \<exists>ps. get_prop b k = Val (JObj ps) \<Longrightarrow>
   \<exists>b'. fold_res (suffix_input i) ks b = Val b'"
proof (induction ks arbitrary: b)
  case Nil
  then show ?case by simp
next
  case (Cons x xs)
  from Cons.prems obtain ps where "get_prop b x = Val (JObj ps)" by auto
  from suffix_input_returns [OF this, of i] obtain b1 ps1 where
    s: "suffix_input i x b = Val b1" and g: "get_prop b1 x = Val (JObj ps1)" by blast
  have "\<exists>ps. get_prop b1 k = Val (JObj ps)" if "k \<in> set xs" for k
  proof (cases "k = x")
    case True
    with g show ?thesis by simp
  next
    case False
    with suffix_input_rest [OF s] have "get_prop b1 k = get_prop b k" by simp
    with Cons.prems that show ?thesis by simp
  qed
  then have "\<forall>k \<in> set xs. \<exists>ps. get_prop b1 k = Val (JObj ps)" by blast
  from Cons.IH [OF this] s show ?case by simp
qed

lemma map_res_returns:
  "\<forall>x \<in> set xs. \<exists>y. f x = Val y \<Longrightarrow> \<exists>ys. map_res f xs = Val ys"
proof (induction xs)
  case Nil
  then show ?case by simp
next
  case (Cons x xs)
  then obtain y ys where "f x = Val y" "map_res f xs = Val ys" by auto
  then show ?case by simp
qed

lemma make_instance_returns:
  assumes "object_keys inputs = Val names"
      and "\<forall>k \<in> set names. \<exists>ps. get_prop inputs k = Val (JObj ps)"
  shows "\<exists>c. make_instance inputs i = Val c"
  using fold_suffix_returns [OF assms(2), of i] assms(1) by (simp add: make_instance_def)

lemma show_nat_last: "last (show_nat n) \<in> set ''0123456789''"
proof -
  have "last (show_nat n) = digit (n mod 10)"
    by (subst show_nat.simps) simp
  moreover have "n mod 10 < length ''0123456789''" by simp
  ultimately show ?thesis unfolding digit_def by (metis nth_mem)
qed

lemma set_prop_named:
  assumes "set_prop b k v = Val b'" and "last k \<notin> set ''0123456789''"
  shows "(\<exists>ps. b = JObj ps) \<and> (\<exists>ps'. b' = JObj ps')"
proof (cases b)
  case (JArr xs)
  with assms(1) obtain i where "index_of k (length xs) = Some i"
    by (auto split: option.splits if_splits)
  then have "show_nat i = k" by (simp add: index_of_SomeD)
  with show_nat_last [of i] assms(2) show ?thesis by simp
qed (use assms(1) in auto)

lemma set_input_obj:
  "set_input plugin input x = Val plugin' \<Longrightarrow> (\<exists>ps. plugin = JObj ps) \<and> (\<exists>ps'. plugin' = JObj ps')"
  by (auto simp: set_input_def bind_res_eq_Val dest!: set_prop_named)

lemma apply_overrides_obj:
  "apply_overrides ident attribute template = Val plugin \<Longrightarrow> \<exists>ps. plugin = JObj ps"
  by (auto simp: apply_overrides_def bind_res_eq_Val dest!: set_prop_named [where k = "''type''"])

lemma default_label_obj:
  "default_label plugin = Val plugin' \<Longrightarrow> \<exists>ps. plugin = JObj ps \<Longrightarrow> \<exists>ps'. plugin' = JObj ps'"
  by (auto simp: default_label_def bind_res_eq_Val Let_def split: if_splits dest!: set_input_obj)

lemma merge_input_obj:
  "merge_input env overrides attr plugin = Val plugin' \<Longrightarrow> \<exists>ps. plugin = JObj ps \<Longrightarrow>
   \<exists>ps'. plugin' = JObj ps'"
  by (auto simp: merge_input_def bind_res_eq_Val split: if_splits dest!: set_input_obj)

lemma fold_res_invariant:
  assumes "\<And>x b b'. f x b = Val b' \<Longrightarrow> P b \<Longrightarrow> P b'"
  shows "fold_res f xs b = Val b' \<Longrightarrow> P b \<Longrightarrow> P b'"
  using assms by (induction xs arbitrary: b) (auto simp: bind_res_eq_Val)

lemma merge_inputs_obj:
  assumes "merge_inputs env attribute plugin = Val plugin'" and "\<exists>ps. plugin = JObj ps"
  shows "\<exists>ps'. plugin' = JObj ps'"
proof (cases "plugin' = plugin")
  case True
  with assms(2) show ?thesis by simp
next
  case False
  with assms(1) obtain overrides attrs where
    f: "fold_res (merge_input env overrides) attrs plugin = Val plugin'"
    by (auto simp: merge_inputs_def bind_res_eq_Val split: if_splits)
  show ?thesis
    by (rule fold_res_invariant [where P = "\<lambda>b. \<exists>ps. b = JObj ps", OF _ f assms(2)])
       (rule merge_input_obj)
qed

lemma assign_id_obj:
  "assign_id env input (plugin, n) = Val (plugin', n') \<Longrightarrow> \<exists>ps'. plugin' = JObj ps'"
  by (auto simp: assign_id_def bind_res_eq_Val dest!: set_input_obj)

lemma assign_ids_obj:
  assumes "assign_ids env plugin n = Val (plugin', n')" and "\<exists>ps. plugin = JObj ps"
  shows "\<exists>ps'. plugin' = JObj ps'"
proof -
  from assms(1) obtain names where
    f: "fold_res (assign_id env) names (plugin, n) = Val (plugin', n')"
    by (auto simp: assign_ids_def bind_res_eq_Val)
  have "\<exists>ps. fst (plugin', n') = JObj ps"
    by (rule fold_res_invariant [where P = "\<lambda>s. \<exists>ps. fst s = JObj ps", OF _ f])
       (use assms(2) in \<open>auto dest: assign_id_obj\<close>)
  then show ?thesis by simp
qed

lemma resolve_inputs_obj:
  assumes "resolve_inputs env cat ident attribute n = Val (plugin, n')"
  shows "\<exists>ps. plugin = JObj ps"
proof -
  from assms obtain template p1 p2 p3 where
    s1: "apply_overrides ident attribute template = Val p1" and
    s2: "default_label p1 = Val p2" and
    s3: "merge_inputs env attribute p2 = Val p3" and
    s4: "assign_ids env p3 n = Val (plugin, n')"
    by (auto simp: resolve_inputs_def bind_res_eq_Val)
  from assign_ids_obj [OF s4 merge_inputs_obj [OF s3 default_label_obj [OF s2 apply_overrides_obj [OF s1]]]]
  show ?thesis .
qed

lemma assign_id_entry:
  assumes "assign_id env k (plugin, n) = Val (plugin', n')"
  shows "\<exists>inputs inputs' ps. get_prop plugin ''inputs'' = Val inputs \<and>
           get_prop plugin' ''inputs'' = Val inputs' \<and>
           set_prop inputs k (JObj ps) = Val inputs'"
proof -
  from assms obtain inp1 nm inp2 where
    a: "set_prop inp1 ''name'' nm = Val inp2" and
    b: "set_input plugin k inp2 = Val plugin'"
    by (auto simp: assign_id_def bind_res_eq_Val)
  from set_prop_named [OF a] obtain ps where "inp2 = JObj ps" by auto
  with set_input_inputs [OF b] show ?thesis by blast
qed

lemma fold_assign_shape:
  assumes "fold_res (assign_id env) ks (plugin, n) = Val (plugin', n')"
      and "get_prop plugin ''inputs'' = Val inputs"
      and "object_keys inputs = Val names" and "set ks \<subseteq> set names"
  shows "\<exists>inputs'. get_prop plugin' ''inputs'' = Val inputs' \<and>
           object_keys inputs' = Val names \<and>
           (\<forall>k \<in> set ks. \<exists>ps. get_prop inputs' k = Val (JObj ps)) \<and>
           (\<forall>k. k \<notin> set ks \<longrightarrow> get_prop inputs' k = get_prop inputs k)"
  using assms
proof (induction ks arbitrary: plugin n inputs)
  case Nil
  then show ?case by simp
next
  case (Cons x xs)
  from Cons.prems(1) obtain p1 n1 where
    s: "assign_id env x (plugin, n) = Val (p1, n1)" and
    r: "fold_res (assign_id env) xs (p1, n1) = Val (plugin', n')"
    by (auto simp: bind_res_eq_Val)
  from assign_id_entry [OF s] Cons.prems(2) obtain inputs1 ps where
    g1: "get_prop p1 ''inputs'' = Val inputs1" and
    u: "set_prop inputs x (JObj ps) = Val inputs1"
    by auto
  from Cons.prems(4) have xn: "x \<in> set names" and sub: "set xs \<subseteq> set names" by simp_all
  from set_prop_keys [OF u Cons.prems(3) xn] have k1: "object_keys inputs1 = Val names" .
  from Cons.IH [OF r g1 k1 sub] obtain inputs' where
    i: "get_prop plugin' ''inputs'' = Val inputs'" "object_keys inputs' = Val names"
       "\<forall>k \<in> set xs. \<exists>ps. get_prop inputs' k = Val (JObj ps)"
       "\<forall>k. k \<notin> set xs \<longrightarrow> get_prop inputs' k = get_prop inputs1 k"
    by blast
  have "\<exists>ps. get_prop inputs' x = Val (JObj ps)"
  proof (cases "x \<in> set xs")
    case True
    with i(3) show ?thesis by blast
  next
    case False
    with i(4) have "get_prop inputs' x = get_prop inputs1 x" by simp
    with set_prop_same [OF u] show ?thesis by simp
  qed
  moreover have "get_prop inputs' k = get_prop inputs k" if "k \<notin> set (x # xs)" for k
  proof -
    from that have "k \<notin> set xs" "k \<noteq> x" by simp_all
    with i(4) set_prop_other [OF u, of k] show ?thesis by simp
  qed
  ultimately show ?case using i(1,2,3) by simp
qed

lemma assign_ids_shape:
  assumes "assign_ids env plugin n = Val (plugin', n')"
      and "get_prop plugin' ''inputs'' = Val inputs'" and "object_keys inputs' = Val names"
  shows "\<forall>k \<in> set names. \<exists>ps. get_prop inputs' k = Val (JObj ps)"
proof -
  from assms(1) obtain inputs names0 where
    g: "get_prop plugin ''inputs'' = Val inputs" and
    k: "object_keys inputs = Val names0" and
    f: "fold_res (assign_id env) names0 (plugin, n) = Val (plugin', n')"
    by (auto simp: assign_ids_def bind_res_eq_Val)
  from fold_assign_shape [OF f g k subset_refl] assms(2,3) show ?thesis by auto
qed

lemma resolve_inputs_shape:
  assumes "resolve_inputs env cat ident attribute n = Val (plugin, n')"
      and "get_prop plugin ''inputs'' = Val inputs" and "object_keys inputs = Val names"
  shows "\<forall>k \<in> set names. \<exists>ps. get_prop inputs k = Val (JObj ps)"
proof -
  from assms(1) obtain p3 where "assign_ids env p3 n = Val (plugin, n')"
    by (auto simp: resolve_inputs_def bind_res_eq_Val)
  from assign_ids_shape [OF this assms(2,3)] show ?thesis .
qed

lemma normalize_repeatable_obj:
  "normalize_repeatable rep (JObj ps) = Val plugin1 \<Longrightarrow> \<exists>ps1. plugin1 = JObj ps1"
  by (auto simp: normalize_repeatable_def bind_res_eq_Val split: if_splits)

lemma expand_repeatable_returns:
  assumes rep: "get_prop attribute ''repeatable'' = Val rep" "truthy rep"
      and norm: "normalize_repeatable rep (JObj ps) = Val plugin1"
      and spec: "get_prop plugin1 ''repeatable'' = Val spec"
      and mn: "get_prop spec ''min'' = Val (JNum (int m))"
      and inputs: "get_prop (JObj ps) ''inputs'' = Val inputs" "object_keys inputs = Val names"
      and shape: "\<forall>k \<in> set names. \<exists>ps. get_prop inputs k = Val (JObj ps)"
  shows "\<exists>resolved. expand_repeatable attribute (JObj ps) = Val resolved"
proof -
  from normalize_repeatable_obj [OF norm] obtain ps1 where p1: "plugin1 = JObj ps1" by blast
  from normalize_repeatable_other [OF norm, of "''inputs''"] inputs(1)
  have i1: "get_prop plugin1 ''inputs'' = Val inputs" by simp
  have "\<forall>i \<in> set [0..<m]. \<exists>c. make_instance inputs i = Val c"
    using make_instance_returns [OF inputs(2) shape] by blast
  from map_res_returns [OF this] obtain copies where
    "map_res (make_instance inputs) [0..<m] = Val copies" by blast
  with rep norm spec mn i1 p1 show ?thesis
    by (simp add: expand_repeatable_def)
qed

section \<open>The identifier checks\<close>

lemma get_prop_not_Beyond [simp]: "get_prop v k \<noteq> Beyond"
  by (cases v) auto

lemma has_own_not_Beyond [simp]: "has_own v k \<noteq> Beyond"
  by (cases v) auto

lemma object_keys_not_Beyond [simp]: "object_keys v \<noteq> Beyond"
  by (cases v) auto

lemma bind_res_eq_Beyond:
  "bind_res m f = Beyond \<longleftrightarrow> m = Beyond \<or> (\<exists>x. m = Val x \<and> f x = Beyond)"
  by (cases m) auto

lemma truthy_has_own: "truthy c \<Longrightarrow> \<exists>b. has_own c k = Val b"
  by (cases c) auto

lemma find_contender_none:
  "\<forall>a \<in> set attrs. \<exists>aid. get_prop a ''id'' = Val aid \<and> \<not> strict_eq aid ident \<Longrightarrow>
   find_contender ident attrs = Val JUndefined"
  by (induction attrs) auto

lemma find_contender_found:
  "\<forall>a \<in> set pre. \<exists>aid. get_prop a ''id'' = Val aid \<and> \<not> strict_eq aid ident \<Longrightarrow>
   get_prop c ''id'' = Val cid \<Longrightarrow> strict_eq cid ident \<Longrightarrow>
   find_contender ident (pre @ c # post) = Val c"
  by (induction pre) auto

text \<open>
  The checks in source order, begun with the promise pending, on the entries of
  \<^verbatim>\<open>contender.inputs\<close> as line 213 finds them. When no resolved attribute has the
  identifier as its id, the promise is rejected with \<open>IdentifierNotAttribute\<close>.
  Otherwise, for the first attribute \<open>c\<close> that has it: with more than one entry in
  \<^verbatim>\<open>inputs\<close> the promise is rejected with \<open>IdentifierMultipleInputs\<close>; else with a
  \<^verbatim>\<open>repeatable\<close> property, with \<open>IdentifierRepeatable\<close>; else, with a single
  entry, with \<open>IdentifierHasOptions\<close> when that entry declares options, and when it
  declares none the checks leave the promise pending. The attributes before \<open>c\<close> are
  \<open>pre\<close>, those after it \<open>post\<close>.
\<close>

lemma check_identifier_order:
  assumes "\<forall>a \<in> set pre. \<exists>aid. get_prop a ''id'' = Val aid \<and> \<not> strict_eq aid ident"
  shows "promise_after (check_identifier ident pre None) = Some IdentifierNotAttribute \<and>
    (truthy c \<and> get_prop c ''id'' = Val cid \<and> strict_eq cid ident \<and>
     get_prop c ''inputs'' = Val inputs \<and> object_keys inputs = Val names \<longrightarrow>
       (1 < length names \<longrightarrow>
          promise_after (check_identifier ident (pre @ c # post) None)
            = Some IdentifierMultipleInputs) \<and>
       (length names \<le> 1 \<and> has_own c ''repeatable'' = Val True \<longrightarrow>
          promise_after (check_identifier ident (pre @ c # post) None)
            = Some IdentifierRepeatable) \<and>
       (\<forall>k inp. names = [k] \<and> has_own c ''repeatable'' = Val False \<and>
            get_prop inputs k = Val inp \<longrightarrow>
          (has_own inp ''options'' = Val True \<longrightarrow>
             check_identifier ident (pre @ c # post) None = Cont (Some IdentifierHasOptions)) \<and>
          (has_own inp ''options'' = Val False \<longrightarrow>
             check_identifier ident (pre @ c # post) None = Cont None)))"
proof (intro conjI impI allI)
  show "promise_after (check_identifier ident pre None) = Some IdentifierNotAttribute"
    using find_contender_none [OF assms]
    by (simp add: check_identifier_def run_res_def reject_def)
next
  assume h: "truthy c \<and> get_prop c ''id'' = Val cid \<and> strict_eq cid ident \<and>
     get_prop c ''inputs'' = Val inputs \<and> object_keys inputs = Val names"
    and "1 < length names"
  with find_contender_found [OF assms, of c cid post] truthy_has_own [of c "''repeatable''"]
  show "promise_after (check_identifier ident (pre @ c # post) None)
            = Some IdentifierMultipleInputs"
    by (auto simp: check_identifier_def run_res_def reject_def Let_def bind_res_eq_Beyond
          split: res.splits)
next
  assume h: "truthy c \<and> get_prop c ''id'' = Val cid \<and> strict_eq cid ident \<and>
     get_prop c ''inputs'' = Val inputs \<and> object_keys inputs = Val names"
    and "length names \<le> 1 \<and> has_own c ''repeatable'' = Val True"
  with find_contender_found [OF assms, of c cid post]
  show "promise_after (check_identifier ident (pre @ c # post) None)
            = Some IdentifierRepeatable"
    by (auto simp: check_identifier_def run_res_def reject_def Let_def bind_res_eq_Beyond
          split: res.splits)
next
  fix k inp
  assume h: "truthy c \<and> get_prop c ''id'' = Val cid \<and> strict_eq cid ident \<and>
     get_prop c ''inputs'' = Val inputs \<and> object_keys inputs = Val names"
    and "names = [k] \<and> has_own c ''repeatable'' = Val False \<and> get_prop inputs k = Val inp"
    and "has_own inp ''options'' = Val True"
  with find_contender_found [OF assms, of c cid post]
  show "check_identifier ident (pre @ c # post) None = Cont (Some IdentifierHasOptions)"
    by (auto simp: check_identifier_def run_res_def reject_def Let_def first_key_def)
next
  fix k inp
  assume h: "truthy c \<and> get_prop c ''id'' = Val cid \<and> strict_eq cid ident \<and>
     get_prop c ''inputs'' = Val inputs \<and> object_keys inputs = Val names"
    and "names = [k] \<and> has_own c ''repeatable'' = Val False \<and> get_prop inputs k = Val inp"
    and "has_own inp ''options'' = Val False"
  with find_contender_found [OF assms, of c cid post]
  show "check_identifier ident (pre @ c # post) None = Cont None"
    by (auto simp: check_identifier_def run_res_def reject_def Let_def first_key_def)
qed

section \<open>The claims\<close>

text \<open>
  C1, as the code runs it: on the content type whose first attribute has no name the
  promise is rejected with \<open>MissingAttributeName\<close>, the error detected first, and yet
  the callback went on: both attributes are merged, two identifiers are generated, the
  four identifier checks run, and line 225 stores the resolved attributes in the type
  object. The catalog is as it was.
\<close>

theorem squish_continues_after_reject:
  "observe (squish std_env (TypesArray [1]) (store_of catalog nameless_type)) [0, 1]
     = Some (Rejected MissingAttributeName, [catalog, nameless_after])"
  by code_simp




text \<open>
  C3, as stated, fails where it says the resolved input has a script only when the
  template defines one: the template input \<open>limited_input\<close> has no script, the
  attribute's override supplies one, and the resolved input carries the override's
  script.
\<close>

theorem override_script_kept:
  "has_own limited_input ''script'' = Val False \<and>
   resolved_input_field std_env limited_catalog (JStr ''slug'') scripted_body ''value'' ''script''
     = Val (JStr ''evil.js'')"
  by code_simp

text \<open>
  C3, amended: for an input key that the attribute overrides and the plugin template
  has, the resolved input has the template's validation and the template's type; when
  the template defines a script, it has a script, the template's; and when the override
  defines options, its options are exactly the override's options. (With no script in
  the template, the template does not decide whether the resolved input has one.) The
  resolved input is the input as the attribute holds it after line 160; \<open>tplugin\<close> is
  the plugin in the catalog and \<open>template\<close> its input.
\<close>

theorem override_precedence:
  assumes stage: "resolve_inputs env cat ident attribute n = Val (plugin, n')"
      and tm: "get_prop attribute ''type'' = Val ty" "get_prop cat (plugin_key ty) = Val tplugin"
        "get_prop tplugin ''inputs'' = Val tinputs" "object_keys tinputs = Val names"
        "attr \<in> set names" "get_prop tinputs attr = Val template"
      and ov: "get_prop attribute ''inputs'' = Val overrides" "object_keys overrides = Val attrs"
        "attr \<in> set attrs" "get_prop overrides attr = Val override"
  shows "\<exists>inputs resolved.
     get_prop plugin ''inputs'' = Val inputs \<and> get_prop inputs attr = Val resolved \<and>
     get_prop resolved ''validation'' = get_prop template ''validation'' \<and>
     get_prop resolved ''type'' = get_prop template ''type'' \<and>
     (has_own template ''script'' = Val True \<longrightarrow>
        has_own resolved ''script'' = Val True \<and>
        get_prop resolved ''script'' = get_prop template ''script'') \<and>
     (has_own override ''options'' = Val True \<longrightarrow>
        get_prop resolved ''options'' = get_prop override ''options'')"
proof -
  from stage tm(1,2) obtain p1 p2 p3 where
    s1: "apply_overrides ident attribute tplugin = Val p1" and
    s2: "default_label p1 = Val p2" and
    s3: "merge_inputs env attribute p2 = Val p3" and
    s4: "assign_ids env p3 n = Val (plugin, n')"
    by (auto simp: resolve_inputs_def bind_res_eq_Val)
  from apply_overrides_inputs [OF s1] tm(3) have g1: "get_prop p1 ''inputs'' = Val tinputs"
    by simp
  from default_label_inputs [OF s2 g1 tm(4)] tm(6) obtain inputs2 t2 where
    g2: "get_prop p2 ''inputs'' = Val inputs2" and k2: "object_keys inputs2 = Val names" and
    t2: "get_prop inputs2 attr = Val t2" "same_except {''label''} template t2"
    by blast
  from merge_inputs_fields [OF s3 ov g2 k2 tm(5) t2(1)] obtain inputs3 r3 where
    g3: "get_prop p3 ''inputs'' = Val inputs3" and
    r3: "get_prop inputs3 attr = Val r3"
        "get_prop r3 ''validation'' = get_prop t2 ''validation''"
        "get_prop r3 ''type'' = get_prop t2 ''type''"
        "has_own t2 ''script'' = Val True \<longrightarrow>
           has_own r3 ''script'' = Val True \<and> get_prop r3 ''script'' = get_prop t2 ''script''"
        "has_own override ''options'' = Val True \<longrightarrow>
           get_prop r3 ''options'' = get_prop override ''options''"
    by blast
  from assign_ids_inputs [OF s4 g3] r3(1) obtain inputs4 r4 where
    g4: "get_prop plugin ''inputs'' = Val inputs4" and
    r4: "get_prop inputs4 attr = Val r4" "same_except {''id'', ''name''} r3 r4"
    by blast
  from t2(2) have a:
    "get_prop t2 ''validation'' = get_prop template ''validation''"
    "get_prop t2 ''type'' = get_prop template ''type''"
    "get_prop t2 ''script'' = get_prop template ''script''"
    "has_own t2 ''script'' = has_own template ''script''"
    by (simp_all add: same_except_def)
  from r4(2) have b:
    "get_prop r4 ''validation'' = get_prop r3 ''validation''"
    "get_prop r4 ''type'' = get_prop r3 ''type''"
    "get_prop r4 ''script'' = get_prop r3 ''script''"
    "has_own r4 ''script'' = has_own r3 ''script''"
    "get_prop r4 ''options'' = get_prop r3 ''options''"
    by (simp_all add: same_except_def)
  from a b r3(2-5) have
    "get_prop r4 ''validation'' = get_prop template ''validation''"
    "get_prop r4 ''type'' = get_prop template ''type''"
    "has_own template ''script'' = Val True \<longrightarrow>
        has_own r4 ''script'' = Val True \<and> get_prop r4 ''script'' = get_prop template ''script''"
    "has_own override ''options'' = Val True \<longrightarrow>
        get_prop r4 ''options'' = get_prop override ''options''"
    by simp_all
  with g4 r4(1) show ?thesis by blast
qed

theorem override_precedence_witness:
  "(\<exists>plugin inputs resolved.
      resolve_inputs std_env limited_catalog (JStr ''slug'') scripted_body 0 = Val (plugin, 1) \<and>
      get_prop plugin ''inputs'' = Val inputs \<and> get_prop inputs ''value'' = Val resolved \<and>
      get_prop resolved ''validation'' = Val (JObj [(''maxLength'', JNum 10)]) \<and>
      get_prop resolved ''type'' = Val (JStr ''string'') \<and>
      get_prop resolved ''options'' = Val (JArr [JStr ''A'', JStr ''B''])) \<and>
   (\<exists>plugin inputs resolved.
      resolve_inputs std_env stock_catalog (JStr ''slug'') scripted_body 0 = Val (plugin, 1) \<and>
      get_prop plugin ''inputs'' = Val inputs \<and> get_prop inputs ''value'' = Val resolved \<and>
      has_own resolved ''script'' = Val True \<and>
      get_prop resolved ''script'' = Val (JStr ''default.js''))"
proof -
  have ov: "get_prop scripted_body ''inputs'' = Val (JObj [(''value'', body_override)])"
    "object_keys (JObj [(''value'', body_override)]) = Val [''value'']"
    "''value'' \<in> set [''value'']"
    "get_prop (JObj [(''value'', body_override)]) ''value'' = Val body_override"
    by (simp_all add: scripted_body_def)
  have ty: "get_prop scripted_body ''type'' = Val (JStr ''text'')"
    by (simp add: scripted_body_def)
  have limited: "\<exists>plugin inputs resolved.
      resolve_inputs std_env limited_catalog (JStr ''slug'') scripted_body 0 = Val (plugin, 1) \<and>
      get_prop plugin ''inputs'' = Val inputs \<and> get_prop inputs ''value'' = Val resolved \<and>
      get_prop resolved ''validation'' = Val (JObj [(''maxLength'', JNum 10)]) \<and>
      get_prop resolved ''type'' = Val (JStr ''string'') \<and>
      get_prop resolved ''options'' = Val (JArr [JStr ''A'', JStr ''B''])"
  proof -
    have "(case resolve_inputs std_env limited_catalog (JStr ''slug'') scripted_body 0 of
             Val r \<Rightarrow> snd r = 1 | _ \<Rightarrow> False)"
      by code_simp
    then obtain plugin where
      stage: "resolve_inputs std_env limited_catalog (JStr ''slug'') scripted_body 0 = Val (plugin, 1)"
      by (auto split: res.splits)
    have tm: "get_prop limited_catalog (plugin_key (JStr ''text'')) = Val limited_plugin"
      "get_prop limited_plugin ''inputs'' = Val (JObj [(''value'', limited_input)])"
      "object_keys (JObj [(''value'', limited_input)]) = Val [''value'']"
      "''value'' \<in> set [''value'']"
      "get_prop (JObj [(''value'', limited_input)]) ''value'' = Val limited_input"
      by (simp_all add: limited_catalog_def plugin_key_def limited_plugin_def)
    from override_precedence [OF stage ty tm ov] obtain inputs resolved where
      r: "get_prop plugin ''inputs'' = Val inputs" "get_prop inputs ''value'' = Val resolved"
         "get_prop resolved ''validation'' = get_prop limited_input ''validation''"
         "get_prop resolved ''type'' = get_prop limited_input ''type''"
         "has_own body_override ''options'' = Val True \<longrightarrow>
            get_prop resolved ''options'' = get_prop body_override ''options''"
      by blast
    from r(3) have "get_prop resolved ''validation'' = Val (JObj [(''maxLength'', JNum 10)])"
      by (simp add: limited_input_def)
    moreover from r(4) have "get_prop resolved ''type'' = Val (JStr ''string'')"
      by (simp add: limited_input_def)
    moreover from r(5) have "get_prop resolved ''options'' = Val (JArr [JStr ''A'', JStr ''B''])"
      by (simp add: body_override_def)
    ultimately show ?thesis using stage r(1,2) by blast
  qed
  have stock: "\<exists>plugin inputs resolved.
      resolve_inputs std_env stock_catalog (JStr ''slug'') scripted_body 0 = Val (plugin, 1) \<and>
      get_prop plugin ''inputs'' = Val inputs \<and> get_prop inputs ''value'' = Val resolved \<and>
      has_own resolved ''script'' = Val True \<and>
      get_prop resolved ''script'' = Val (JStr ''default.js'')"
  proof -
    have "(case resolve_inputs std_env stock_catalog (JStr ''slug'') scripted_body 0 of
             Val r \<Rightarrow> snd r = 1 | _ \<Rightarrow> False)"
      by code_simp
    then obtain plugin where
      stage: "resolve_inputs std_env stock_catalog (JStr ''slug'') scripted_body 0 = Val (plugin, 1)"
      by (auto split: res.splits)
    have tm: "get_prop stock_catalog (plugin_key (JStr ''text'')) = Val stock_plugin"
      "get_prop stock_plugin ''inputs'' = Val (JObj [(''value'', stock_input)])"
      "object_keys (JObj [(''value'', stock_input)]) = Val [''value'']"
      "''value'' \<in> set [''value'']"
      "get_prop (JObj [(''value'', stock_input)]) ''value'' = Val stock_input"
      by (simp_all add: stock_catalog_def plugin_key_def stock_plugin_def)
    from override_precedence [OF stage ty tm ov] obtain inputs resolved where
      r: "get_prop plugin ''inputs'' = Val inputs" "get_prop inputs ''value'' = Val resolved"
         "has_own stock_input ''script'' = Val True \<longrightarrow>
            has_own resolved ''script'' = Val True \<and>
            get_prop resolved ''script'' = get_prop stock_input ''script''"
      by blast
    from r(3) have "has_own resolved ''script'' = Val True"
      "get_prop resolved ''script'' = Val (JStr ''default.js'')"
      by (simp_all add: stock_input_def)
    then show ?thesis using stage r(1,2) by blast
  qed
  from limited stock show ?thesis by (rule conjI)
qed

text \<open>
  C4: when a call resolves, every content type it was given holds resolved attributes,
  and each of them whose id equals the type's identifier has \<^verbatim>\<open>required\<close> equal to
  \<^verbatim>\<open>'save'\<close>, whatever the attribute declared.
\<close>

theorem identifier_required_save:
  assumes "squish env (TypesArray addrs) st = Finished (Resolved configured) st'"
      and "a \<in> set addrs"
  shows "identifier_saved (st' a)"
proof -
  from squish_cases [OF assms(1)] obtain p n where
    "squish_types env addrs None 0 st = Mapped p n st'"
    by (auto simp: thrown_not_Resolved)
  from squish_types_saved [OF this, of "{}"] assms(2) show ?thesis by simp
qed

theorem identifier_required_save_witness:
  "observe (squish std_env (TypesArray [1]) (store_of catalog post_type)) [1]
     = Some (Resolved [1], [post_resolved])
   \<and> identifier_saved post_resolved
   \<and> get_prop post_type ''identifier'' = Val (JStr ''slug'')"
proof -
  have obs: "observe (squish std_env (TypesArray [1]) (store_of catalog post_type)) [1]
          = Some (Resolved [1], [post_resolved])"
    by code_simp
  then obtain st' where
    run: "squish std_env (TypesArray [1]) (store_of catalog post_type) = Finished (Resolved [1]) st'"
    and at1: "st' 1 = post_resolved"
    by (cases "squish std_env (TypesArray [1]) (store_of catalog post_type)") auto
  from identifier_required_save [OF run, of 1] at1 have "identifier_saved post_resolved"
    by simp
  then show ?thesis using obs by (simp add: post_type_def)
qed

text \<open>
  C5: for an attribute whose repeatable specification normalises to \<^verbatim>\<open>min\<close> equal to
  \<open>m\<close>, the expansion returns, and the resolved attribute's \<^verbatim>\<open>inputs\<close> is a sequence
  of exactly \<open>m\<close> copies of the resolved input map, in order; copy \<open>i\<close> has the keys of the input map, the id and
  the name of each of its inputs are those of the input map followed by \<^verbatim>\<open>--i\<close>, and
  every other property of each input is as in the input map; the normalised
  specification, with its \<^verbatim>\<open>max\<close>, stays on the resolved attribute. Each copy is
  built on its own \<^verbatim>\<open>_.cloneDeep\<close> of the input map (line 190). \<open>plugin\<close> is the
  attribute after line 160 and \<open>inputs\<close> its input map.
\<close>

theorem repeatable_expansion:
  assumes stage: "resolve_inputs env cat ident attribute n = Val (plugin, n')"
      and rep: "get_prop attribute ''repeatable'' = Val rep" "truthy rep"
      and norm: "normalize_repeatable rep plugin = Val plugin1"
      and spec: "get_prop plugin1 ''repeatable'' = Val spec"
      and mn: "get_prop spec ''min'' = Val (JNum (int m))"
      and inputs: "get_prop plugin ''inputs'' = Val inputs" "object_keys inputs = Val names"
        "distinct names"
  shows "\<exists>resolved copies. resolve_attr env cat ident attribute n = Val (resolved, n') \<and>
           get_prop resolved ''inputs'' = Val (JArr copies) \<and> length copies = m \<and>
           get_prop resolved ''repeatable'' = Val spec \<and>
           (\<forall>i < m. object_keys (copies ! i) = Val names \<and>
              (\<forall>k \<in> set names. \<exists>inp c. get_prop inputs k = Val inp \<and>
                 get_prop (copies ! i) k = Val c \<and> suffixed i inp c))"
proof -
  from resolve_inputs_obj [OF stage] obtain ps where ps: "plugin = JObj ps" by blast
  have shape: "\<forall>k \<in> set names. \<exists>ps. get_prop inputs k = Val (JObj ps)"
    using resolve_inputs_shape [OF stage inputs(1,2)] .
  from expand_repeatable_returns [OF rep norm [unfolded ps] spec mn inputs(1) [unfolded ps]
      inputs(2) shape] ps
  obtain resolved where ex: "expand_repeatable attribute plugin = Val resolved" by blast
  with stage have ret: "resolve_attr env cat ident attribute n = Val (resolved, n')"
    by (simp add: resolve_attr_def)
  from expand_repeatable_copies [OF rep norm spec mn inputs(1) ex] obtain copies where
    c: "get_prop resolved ''inputs'' = Val (JArr copies)" "length copies = m"
       "get_prop resolved ''repeatable'' = Val spec"
       "\<forall>i < m. make_instance inputs i = Val (copies ! i)"
    by blast
  have "object_keys (copies ! i) = Val names \<and>
        (\<forall>k \<in> set names. \<exists>inp c. get_prop inputs k = Val inp \<and>
            get_prop (copies ! i) k = Val c \<and> suffixed i inp c)" if "i < m" for i
    using make_instance_copy [OF _ inputs(2,3)] c(4) that by blast
  with ret c(1,2,3) show ?thesis by blast
qed

theorem repeatable_expansion_witness:
  "resolve_inputs std_env catalog (JStr ''slug'') tags_min3 0 = Val (tags_stage3, 1) \<and>
   resolve_attr std_env catalog (JStr ''slug'') tags_min3 0 = Val (tags_resolved, 1) \<and>
   (\<exists>copies. get_prop tags_resolved ''inputs'' = Val (JArr copies) \<and> length copies = 3 \<and>
      get_prop tags_resolved ''repeatable'' = Val (JObj [(''min'', JNum 3), (''max'', JNum 5)]) \<and>
      (\<forall>i < 3. object_keys (copies ! i) = Val [''value''] \<and>
         (\<forall>k \<in> set [''value'']. \<exists>inp c. get_prop (JObj [(''value'', tags_input)]) k = Val inp \<and>
            get_prop (copies ! i) k = Val c \<and> suffixed i inp c)))"
proof -
  have stage: "resolve_inputs std_env catalog (JStr ''slug'') tags_min3 0 = Val (tags_stage3, 1)"
    by code_simp
  have rep: "get_prop tags_min3 ''repeatable'' = Val (JObj [(''min'', JNum 3), (''max'', JNum 5)])"
    "truthy (JObj [(''min'', JNum 3), (''max'', JNum 5)])"
    by (simp_all add: tags_min3_def)
  have norm: "normalize_repeatable (JObj [(''min'', JNum 3), (''max'', JNum 5)]) tags_stage3
      = Val tags_normalized"
    by code_simp
  have spec: "get_prop tags_normalized ''repeatable''
      = Val (JObj [(''min'', JNum 3), (''max'', JNum 5)])"
    by (simp add: tags_normalized_def)
  have mn: "get_prop (JObj [(''min'', JNum 3), (''max'', JNum 5)]) ''min'' = Val (JNum (int 3))"
    by simp
  have inputs: "get_prop tags_stage3 ''inputs'' = Val (JObj [(''value'', tags_input)])"
    "object_keys (JObj [(''value'', tags_input)]) = Val [''value'']" "distinct [''value'']"
    by (simp_all add: tags_stage3_def)
  have returns: "resolve_attr std_env catalog (JStr ''slug'') tags_min3 0 = Val (tags_resolved, 1)"
    by code_simp
  from repeatable_expansion [OF stage rep norm spec mn inputs] obtain resolved copies where
    r: "resolve_attr std_env catalog (JStr ''slug'') tags_min3 0 = Val (resolved, 1)"
       "get_prop resolved ''inputs'' = Val (JArr copies)" "length copies = 3"
       "get_prop resolved ''repeatable'' = Val (JObj [(''min'', JNum 3), (''max'', JNum 5)])"
       "\<forall>i < 3. object_keys (copies ! i) = Val [''value''] \<and>
         (\<forall>k \<in> set [''value'']. \<exists>inp c. get_prop (JObj [(''value'', tags_input)]) k = Val inp \<and>
            get_prop (copies ! i) k = Val c \<and> suffixed i inp c)"
    by blast
  from r(1) returns have "resolved = tags_resolved" by simp
  with r(2-5) stage returns show ?thesis by blast
qed

text \<open>
  C6, as the code runs it on a repeatable identifier attribute: line 197 has replaced
  \<^verbatim>\<open>inputs\<close> of a repeatable attribute by the array of its instances, so line 213,
  whose comment and message speak of inputs, counts instances. The attribute
  \<open>tags_min3\<close> has one input, carries \<^verbatim>\<open>repeatable\<close> and resolves to three
  instances: the type is rejected with \<open>IdentifierMultipleInputs\<close>, not with
  \<open>IdentifierRepeatable\<close>. The attribute \<open>pair_attribute\<close> has two inputs and
  resolves to one instance: the type is rejected with \<open>IdentifierRepeatable\<close>, not
  with \<open>IdentifierMultipleInputs\<close>.
\<close>

theorem identifier_counts_instances:
  "bind_res (get_prop text_plugin ''inputs'') object_keys = Val [''value''] \<and>
   has_own tags_min3 ''repeatable'' = Val True \<and>
   bind_res (resolved_field std_env catalog (JStr ''tags'') tags_min3 ''inputs'') object_keys
     = Val [''0'', ''1'', ''2''] \<and>
   resolved_field std_env catalog (JStr ''tags'') tags_min3 ''repeatable''
     = Val (JObj [(''min'', JNum 3), (''max'', JNum 5)]) \<and>
   observe (squish std_env (TypesArray [1]) (store_of catalog tags_type)) []
     = Some (Rejected IdentifierMultipleInputs, []) \<and>
   bind_res (get_prop pair_plugin ''inputs'') object_keys = Val [''first'', ''second''] \<and>
   bind_res (resolved_field std_env pair_catalog (JStr ''pair'') pair_attribute ''inputs'')
       object_keys
     = Val [''0''] \<and>
   observe (squish std_env (TypesArray [1]) (store_of pair_catalog pair_type)) []
     = Some (Rejected IdentifierRepeatable, [])"
  by code_simp

text \<open>
  C7: the required-level normaliser is a total function of any value: \<^verbatim>\<open>true\<close>,
  \<^verbatim>\<open>'save'\<close> and \<^verbatim>\<open>2\<close> give save, \<^verbatim>\<open>'publish'\<close> and \<^verbatim>\<open>1\<close> give publish, and
  every other value (among them \<^verbatim>\<open>false\<close> and \<^verbatim>\<open>undefined\<close>) gives none, which the
  module writes as \<^verbatim>\<open>false\<close>.
\<close>

theorem requiredLevel_normalizes:
  "requiredLevel level = level_value (normalize_spec level)"
  by (simp add: requiredLevel_def normalize_spec_def)

text \<open>
  C8, as stated, fails twice. The attribute \<open>optional_body\<close> declares
  \<^verbatim>\<open>required: false\<close> and resolves, against a template whose default is
  \<^verbatim>\<open>'publish'\<close>, to \<^verbatim>\<open>'publish'\<close>: line 104 tests the truthiness of
  \<^verbatim>\<open>attribute.required\<close>, so \<^verbatim>\<open>false\<close> is never normalised. The attribute
  \<open>optional_slug\<close> declares \<^verbatim>\<open>required: false\<close> too, is the identifier, and
  resolves to \<^verbatim>\<open>'save'\<close> (line 110).
\<close>

theorem required_false_ignored:
  "get_prop optional_body ''required'' = Val (JBool False) \<and>
   resolved_field std_env publish_catalog (JStr ''slug'') optional_body ''required''
     = Val (JStr ''publish'') \<and>
   normalize_spec (JStr ''publish'') = publish \<and>
   get_prop optional_slug ''required'' = Val (JBool False) \<and>
   resolved_field std_env catalog (JStr ''slug'') optional_slug ''required''
     = Val (JStr ''save'') \<and>
   normalize_spec (JStr ''save'') = save"
  by code_simp

text \<open>
  C8, amended: for an attribute that declares \<^verbatim>\<open>required: false\<close>, the resolved
  attribute's \<^verbatim>\<open>required\<close> is \<^verbatim>\<open>'save'\<close> when its id is the type's identifier;
  otherwise, when the required level of the plugin template is itself none (the template
  declares no \<^verbatim>\<open>required\<close>, or one that normalises to none), the resolved attribute
  has the template's value and its level is none.
\<close>

theorem required_false_resolved:
  assumes "get_prop attribute ''required'' = Val (JBool False)"
      and "resolve_attr env cat ident attribute n = Val (resolved, n')"
  shows "\<exists>aid ty template. get_prop attribute ''id'' = Val aid \<and>
           get_prop attribute ''type'' = Val ty \<and>
           get_prop cat (plugin_key ty) = Val template \<and>
           (strict_eq aid ident \<longrightarrow> get_prop resolved ''required'' = Val (JStr ''save'')) \<and>
           (\<not> strict_eq aid ident \<longrightarrow>
              (\<forall>r. get_prop template ''required'' = Val r \<longrightarrow> normalize_spec r = none \<longrightarrow>
                   get_prop resolved ''required'' = Val r))"
proof -
  from resolve_attr_stages [OF assms(2)] obtain ty template plugin where
    ty: "get_prop attribute ''type'' = Val ty" and
    tm: "get_prop cat (plugin_key ty) = Val template" and
    ao: "apply_overrides ident attribute template = Val plugin" and
    rq: "get_prop resolved ''required'' = get_prop plugin ''required''"
    by blast
  from apply_overrides_id [OF ao] obtain aid where aid: "get_prop attribute ''id'' = Val aid"
    by blast
  from apply_overrides_required_falsy [OF ao assms(1) _ aid] rq
  have "get_prop resolved ''required'' =
          (if strict_eq aid ident then Val (JStr ''save'') else get_prop template ''required'')"
    by simp
  with ty tm aid show ?thesis by auto
qed

theorem required_false_resolved_witness:
  "get_prop optional_body ''required'' = Val (JBool False) \<and>
   resolved_field std_env catalog (JStr ''slug'') optional_body ''id'' = Val (JStr ''body'') \<and>
   get_prop text_plugin ''required'' = Val JUndefined \<and>
   normalize_spec JUndefined = none \<and>
   resolved_field std_env catalog (JStr ''slug'') optional_body ''required'' = Val JUndefined \<and>
   get_prop optional_slug ''required'' = Val (JBool False) \<and>
   resolved_field std_env catalog (JStr ''slug'') optional_slug ''id'' = Val (JStr ''slug'') \<and>
   resolved_field std_env catalog (JStr ''slug'') optional_slug ''required'' = Val (JStr ''save'')"
proof -
  have rqs: "get_prop optional_slug ''required'' = Val (JBool False)"
    by (simp add: optional_slug_def)
  have ids: "resolved_field std_env catalog (JStr ''slug'') optional_slug ''id''
      = Val (JStr ''slug'')"
    by code_simp
  then obtain resolved_slug m' where
    rs: "resolve_attr std_env catalog (JStr ''slug'') optional_slug 0 = Val (resolved_slug, m')"
    by (auto simp: resolved_field_Val)
  from required_false_resolved [OF rqs rs] obtain sid where
    "get_prop optional_slug ''id'' = Val sid"
    "strict_eq sid (JStr ''slug'') \<longrightarrow> get_prop resolved_slug ''required'' = Val (JStr ''save'')"
    by blast
  then have "get_prop resolved_slug ''required'' = Val (JStr ''save'')"
    by (auto simp: optional_slug_def)
  with rs have sv: "resolved_field std_env catalog (JStr ''slug'') optional_slug ''required''
     = Val (JStr ''save'')"
    by (simp add: resolved_field_def)
  have rq: "get_prop optional_body ''required'' = Val (JBool False)"
    by (simp add: optional_body_def)
  have idf: "resolved_field std_env catalog (JStr ''slug'') optional_body ''id''
      = Val (JStr ''body'')"
    by code_simp
  then obtain resolved n' where
    r: "resolve_attr std_env catalog (JStr ''slug'') optional_body 0 = Val (resolved, n')"
    by (auto simp: resolved_field_Val)
  have tr: "get_prop text_plugin ''required'' = Val JUndefined"
    by (simp add: text_plugin_def)
  have nn: "normalize_spec JUndefined = none"
    by (simp add: normalize_spec_def)
  from required_false_resolved [OF rq r] obtain aid ty template where
    "get_prop optional_body ''id'' = Val aid" "get_prop optional_body ''type'' = Val ty"
    "get_prop catalog (plugin_key ty) = Val template"
    "\<not> strict_eq aid (JStr ''slug'') \<longrightarrow>
       (\<forall>r. get_prop template ''required'' = Val r \<longrightarrow> normalize_spec r = none \<longrightarrow>
            get_prop resolved ''required'' = Val r)"
    by blast
  then have "\<forall>r. get_prop text_plugin ''required'' = Val r \<longrightarrow> normalize_spec r = none \<longrightarrow>
            get_prop resolved ''required'' = Val r"
    by (auto simp: optional_body_def catalog_def plugin_key_def)
  with tr nn have "get_prop resolved ''required'' = Val JUndefined" by blast
  with r have "resolved_field std_env catalog (JStr ''slug'') optional_body ''required''
     = Val JUndefined"
    by (simp add: resolved_field_def)
  with rq idf tr nn rqs ids sv show ?thesis by simp
qed

text \<open>
  C9: for every value of \<^verbatim>\<open>types\<close> that is not an array the promise is rejected with
  \<open>NotAnArray\<close>: line 46 rejects, the exception of line 48 finds the promise already
  settled, nothing is resolved and no object is changed.
\<close>

theorem squish_not_an_array:
  "squish env (NonArray v) st = Finished (Rejected NotAnArray) st"
  by (simp add: squish_def reject_def thrown_def)

text \<open>
  C10: an attribute whose repeatable specification is an object that declares
  \<^verbatim>\<open>min: 0\<close> resolves with an empty \<^verbatim>\<open>inputs\<close> sequence: the loop of line 189 does
  not run. The expansion returns for every plugin object, and whenever the attribute
  resolves, its \<^verbatim>\<open>inputs\<close> is the empty array.
\<close>

theorem repeatable_min_zero_empty:
  assumes "get_prop attribute ''repeatable'' = Val (JObj spec)"
      and "map_of spec ''min'' = Some (JNum 0)"
  shows "(\<exists>plugin'. expand_repeatable attribute (JObj ps) = Val plugin' \<and>
            get_prop plugin' ''inputs'' = Val (JArr [])) \<and>
         (resolve_attr env cat ident attribute n = Val (resolved, n') \<longrightarrow>
            get_prop resolved ''inputs'' = Val (JArr []))"
proof
  from expand_min_zero_returns [OF assms] obtain plugin' where
    "expand_repeatable attribute (JObj ps) = Val plugin'" by blast
  with expand_min_zero [OF assms] show
    "\<exists>plugin'. expand_repeatable attribute (JObj ps) = Val plugin' \<and>
        get_prop plugin' ''inputs'' = Val (JArr [])" by blast
next
  show "resolve_attr env cat ident attribute n = Val (resolved, n') \<longrightarrow>
          get_prop resolved ''inputs'' = Val (JArr [])"
    using resolve_attr_stages expand_min_zero [OF assms] by blast
qed

theorem repeatable_min_zero_empty_witness:
  "get_prop tags_min0 ''repeatable'' = Val (JObj [(''min'', JNum 0)]) \<and>
   resolved_field std_env catalog (JStr ''slug'') tags_min0 ''id'' = Val (JStr ''tags'') \<and>
   resolved_field std_env catalog (JStr ''slug'') tags_min0 ''inputs'' = Val (JArr [])"
proof -
  have rep: "get_prop tags_min0 ''repeatable'' = Val (JObj [(''min'', JNum 0)])"
    by (simp add: tags_min0_def)
  have mn: "map_of [(''min'', JNum 0)] ''min'' = Some (JNum 0)" by simp
  have idf: "resolved_field std_env catalog (JStr ''slug'') tags_min0 ''id'' = Val (JStr ''tags'')"
    by code_simp
  then obtain resolved n' where
    r: "resolve_attr std_env catalog (JStr ''slug'') tags_min0 0 = Val (resolved, n')"
    by (auto simp: resolved_field_Val)
  from repeatable_min_zero_empty [OF rep mn, of Nil std_env catalog "JStr ''slug''" 0 resolved n'] r
  have "get_prop resolved ''inputs'' = Val (JArr [])" by blast
  with r have "resolved_field std_env catalog (JStr ''slug'') tags_min0 ''inputs'' = Val (JArr [])"
    by (simp add: resolved_field_def)
  with rep idf show ?thesis by simp
qed

end
